theory Spec2Isabelle
  imports Main
begin

text \<open>
  A model of the CRUD helper layer of eco_back: the query builder, the pager, the cache
  shim, the transaction wrapper and the handlers of gormtool/crud.go, and the handlers
  of main.go that the properties below are about. The ORM, the cache client and the web
  framework are libraries outside the repository; their calls are modelled by what they
  do to a table of rows and to a key-value cache, with the errors they may report passed
  in as arguments. Where two Go structs have a field of the same name, the second is
  renamed: \<open>SortField\<close> is \<open>SortCondition.Field\<close>, \<open>PageInfo\<close> is \<open>Response.Page\<close>, and
  the fields of \<open>Profile\<close> and \<open>Tag\<close> carry the struct's name in front.
\<close>

section \<open>Values, conditions and the query builder (gormtool/crud.go)\<close>

text \<open>
  A Go \<open>interface{}\<close> carries a dynamic type with its value. The type assertions of
  \<open>BuildQuery\<close> (\<open>.(string)\<close>, \<open>.([]interface{})\<close>) look at that dynamic type, so the
  model keeps it: a generic slice \<open>[]interface{}\<close> (what a JSON array decodes to) is a
  different value from a typed slice such as \<open>[]int\<close>.
\<close>

datatype gvalue =
    VNil
  | VBool bool
  | VInt int
  | VFloat64 nat
  | VString string
  | VSlice "gvalue list"
  | VIntSlice "int list"
  | VStringSlice "string list"

record QueryCondition =
  Field :: string
  Operator :: string
  Value :: gvalue

record SortCondition =
  SortField :: string
  Direction :: string

record QueryBuilder =
  Conditions :: "QueryCondition list"
  Sorts :: "SortCondition list"
  Preloads :: "string list"

text \<open>
  The state of an ORM query handle, as far as \<open>BuildQuery\<close> and the pager change it:
  the predicates added by \<open>Where\<close> (the SQL fragment with its placeholders and the
  arguments bound to them, combined by AND in the order added), the \<open>Order\<close> clauses,
  the \<open>Preload\<close> names, and the \<open>Limit\<close>/\<open>Offset\<close> of the pager.
\<close>

record Stmt =
  wheres :: "(string \<times> gvalue list) list"
  orders :: "string list"
  preloads :: "string list"
  limit :: "int option"
  offset :: "int option"

definition new_stmt :: Stmt where
  "new_stmt = \<lparr>wheres = [], orders = [], preloads = [], limit = None, offset = None\<rparr>"

definition Where :: "Stmt \<Rightarrow> string \<Rightarrow> gvalue list \<Rightarrow> Stmt" where
  "Where db q args = db\<lparr>wheres := wheres db @ [(q, args)]\<rparr>"

definition Order :: "Stmt \<Rightarrow> string \<Rightarrow> Stmt" where
  "Order db s = db\<lparr>orders := orders db @ [s]\<rparr>"

definition Preload :: "Stmt \<Rightarrow> string \<Rightarrow> Stmt" where
  "Preload db s = db\<lparr>preloads := preloads db @ [s]\<rparr>"

definition Limit :: "Stmt \<Rightarrow> int \<Rightarrow> Stmt" where
  "Limit db n = db\<lparr>limit := Some n\<rparr>"

definition Offset :: "Stmt \<Rightarrow> int \<Rightarrow> Stmt" where
  "Offset db n = db\<lparr>offset := Some n\<rparr>"

text \<open>A failed unchecked type assertion panics (Go: "interface conversion").\<close>

datatype panic = InterfaceConversion

text \<open>
  One iteration of the loop over \<open>qb.Conditions\<close>: the \<open>switch cond.Operator\<close> of
  \<open>BuildQuery\<close>, in the order of its cases. The switch has no default case.
\<close>

definition apply_condition :: "Stmt \<Rightarrow> QueryCondition \<Rightarrow> panic + Stmt" where
  "apply_condition db cond =
     (if Operator cond \<in> set [''='', ''!='', ''>'', ''<'', ''>='', ''<='']
      then Inr (Where db (Field cond @ '' '' @ Operator cond @ '' ?'') [Value cond])
      else if Operator cond = ''LIKE''
      then (case Value cond of
              VString s \<Rightarrow> Inr (Where db (Field cond @ '' LIKE ?'') [VString (''%'' @ s @ ''%'')])
            | _ \<Rightarrow> Inl InterfaceConversion)
      else if Operator cond = ''IN''
      then Inr (Where db (Field cond @ '' IN (?)'') [Value cond])
      else if Operator cond = ''NOT IN''
      then Inr (Where db (Field cond @ '' NOT IN (?)'') [Value cond])
      else if Operator cond = ''BETWEEN''
      then (case Value cond of
              VSlice values \<Rightarrow>
                (case values of
                   [v0, v1] \<Rightarrow> Inr (Where db (Field cond @ '' BETWEEN ? AND ?'') [v0, v1])
                 | _ \<Rightarrow> Inr db)
            | _ \<Rightarrow> Inr db)
      else Inr db)"

fun build_conditions :: "Stmt \<Rightarrow> QueryCondition list \<Rightarrow> panic + Stmt" where
  "build_conditions db [] = Inr db"
| "build_conditions db (cond # rest) =
     (case apply_condition db cond of
        Inl p \<Rightarrow> Inl p
      | Inr db' \<Rightarrow> build_conditions db' rest)"

definition build_sorts :: "Stmt \<Rightarrow> SortCondition list \<Rightarrow> Stmt" where
  "build_sorts db ss = foldl (\<lambda>d s. Order d (SortField s @ '' '' @ Direction s)) db ss"

definition build_preloads :: "Stmt \<Rightarrow> string list \<Rightarrow> Stmt" where
  "build_preloads db ps = foldl Preload db ps"

text \<open>\<open>BuildQuery\<close>: a nil builder returns the handle as it is.\<close>

definition BuildQuery :: "Stmt \<Rightarrow> QueryBuilder option \<Rightarrow> panic + Stmt" where
  "BuildQuery db qb =
     (case qb of
        None \<Rightarrow> Inr db
      | Some q \<Rightarrow>
          (case build_conditions db (Conditions q) of
             Inl p \<Rightarrow> Inl p
           | Inr db1 \<Rightarrow> Inr (build_preloads (build_sorts db1 (Sorts q)) (Preloads q))))"


section \<open>Errors, responses and the request context\<close>

text \<open>
  The errors the handlers return. \<open>ErrRecordNotFound\<close> is the ORM's sentinel that the
  handlers compare against; \<open>ErrSyntax\<close> and \<open>ErrRange\<close> are the two errors of
  \<open>strconv.Atoi\<close>; \<open>ErrBind\<close> is a request body that does not bind; \<open>ErrStore\<close> and
  \<open>ErrRedis\<close> are whatever else the store or the cache driver reports; \<open>RedisNil\<close> is
  the cache's answer for a key it does not hold; \<open>ErrMissingWhereClause\<close> is the ORM's
  refusal of a delete without a condition.
\<close>

datatype error =
    ErrRecordNotFound
  | ErrSyntax string
  | ErrRange string
  | ErrBind string
  | ErrStore string
  | ErrRedis string
  | ErrMarshal string
  | RedisNil
  | ErrMissingWhereClause

text \<open>
  The message texts of the response envelope are Chinese string literals in the source;
  each constructor stands for one literal: invalid ID, record does not exist, query
  failed, query succeeded, parameter error, update failed, update succeeded, delete
  failed, delete succeeded, permanent delete succeeded, restore failed, restore succeeded.
\<close>

datatype message =
    MsgInvalidID
  | MsgRecordNotFound
  | MsgQueryFailed
  | MsgQueryOK
  | MsgParamError
  | MsgUpdateFailed
  | MsgUpdateOK
  | MsgDeleteFailed
  | MsgDeleteOK
  | MsgHardDeleteOK
  | MsgRestoreFailed
  | MsgRestoreOK

record Pagination =
  Page :: int
  PageSize :: int
  Total :: int

record 'd Response =
  Code :: int
  Message :: message
  Data :: "'d option"
  PageInfo :: "Pagination option"

definition reply :: "int \<Rightarrow> message \<Rightarrow> 'd Response" where
  "reply code msg = \<lparr>Code = code, Message = msg, Data = None, PageInfo = None\<rparr>"

text \<open>The \<open>gin.H\<close> bodies that the handlers of main.go send.\<close>

datatype 'd H = HMsg error | HData 'd | HAffected int

text \<open>
  What a handler reads from the request: the path parameter \<open>id\<close> and the query
  string (the first value of a key is the one \<open>DefaultQuery\<close> returns).
\<close>

record Context =
  param_id :: string
  query :: "(string \<times> string) list"

definition DefaultQuery :: "Context \<Rightarrow> string \<Rightarrow> string \<Rightarrow> string" where
  "DefaultQuery c key defaultValue =
     (case map_of (query c) key of Some v \<Rightarrow> v | None \<Rightarrow> defaultValue)"

subsection \<open>strconv.Atoi on a 64-bit platform\<close>

definition is_digit :: "char \<Rightarrow> bool" where
  "is_digit ch = (48 \<le> (of_char ch :: nat) \<and> (of_char ch :: nat) \<le> 57)"

definition digit_val :: "char \<Rightarrow> nat" where
  "digit_val ch = (of_char ch :: nat) - 48"

definition max_int :: int where
  "max_int = 9223372036854775807"

definition min_int :: int where
  "min_int = - 9223372036854775808"

definition max_uint64 :: nat where
  "max_uint64 = 18446744073709551615"

text \<open>The sign that \<open>Atoi\<close> and \<open>ParseInt\<close> pick off the front of the string.\<close>

definition strip_sign :: "string \<Rightarrow> bool \<times> string" where
  "strip_sign s =
     (case s of
        [] \<Rightarrow> (False, [])
      | ch # rest \<Rightarrow>
          if ch = CHR ''-'' then (True, rest)
          else if ch = CHR ''+'' then (False, rest)
          else (False, s))"

text \<open>
  The fast path of \<open>Atoi\<close>, taken by strings shorter than 19 bytes: the digits are
  summed up without a range check (they cannot overflow), and any other byte is a
  syntax error.
\<close>

fun atoi_digits :: "nat \<Rightarrow> string \<Rightarrow> nat option" where
  "atoi_digits n [] = Some n"
| "atoi_digits n (ch # rest) =
     (if is_digit ch then atoi_digits (n * 10 + digit_val ch) rest else None)"

definition atoi_fast :: "string \<Rightarrow> int \<times> error option" where
  "atoi_fast s0 =
     (case strip_sign s0 of
        (neg, s) \<Rightarrow>
          if s = [] then (0, Some (ErrSyntax s0))
          else
            (case atoi_digits 0 s of
               None \<Rightarrow> (0, Some (ErrSyntax s0))
             | Some n \<Rightarrow> (if neg then - int n else int n, None)))"

text \<open>
  The slow path: \<open>ParseInt(s, 10, 0)\<close> over \<open>ParseUint\<close>. \<open>ParseUint\<close> reads the bytes
  from left to right and returns at the first byte that fails: with a syntax error
  (value 0) at a byte that is not a digit, with a range error (value \<open>2 ^ 64 - 1\<close>) at
  a digit with which the number no longer fits 64 bits. So a range error is reported
  before a bad byte further to the right is seen. \<open>ParseInt\<close> keeps a range error and
  clamps the value to the nearest bound of \<open>int\<close>.
\<close>

datatype num_error = SyntaxError | RangeError

definition uint_cutoff :: nat where
  "uint_cutoff = max_uint64 div 10 + 1"

fun parse_uint_digits :: "nat \<Rightarrow> string \<Rightarrow> nat \<times> num_error option" where
  "parse_uint_digits n [] = (n, None)"
| "parse_uint_digits n (ch # rest) =
     (if \<not> is_digit ch then (0, Some SyntaxError)
      else if n \<ge> uint_cutoff then (max_uint64, Some RangeError)
      else if n * 10 + digit_val ch > max_uint64 then (max_uint64, Some RangeError)
      else parse_uint_digits (n * 10 + digit_val ch) rest)"

definition ParseUint :: "string \<Rightarrow> nat \<times> num_error option" where
  "ParseUint s = (if s = [] then (0, Some SyntaxError) else parse_uint_digits 0 s)"

definition ParseInt :: "string \<Rightarrow> int \<times> error option" where
  "ParseInt s0 =
     (if s0 = [] then (0, Some (ErrSyntax s0))
      else
        (case strip_sign s0 of
           (neg, s) \<Rightarrow>
             (case ParseUint s of
                (un, err) \<Rightarrow>
                  if err = Some SyntaxError then (0, Some (ErrSyntax s0))
                  else if \<not> neg \<and> int un \<ge> - min_int then (max_int, Some (ErrRange s0))
                  else if neg \<and> int un > - min_int then (min_int, Some (ErrRange s0))
                  else (if neg then - int un else int un, None))))"

text \<open>
  \<open>Atoi\<close> returns the value together with the error. On a syntax error the value is
  0; on a range error it is the nearest bound of \<open>int\<close>.
\<close>

definition Atoi :: "string \<Rightarrow> int \<times> error option" where
  "Atoi s = (if 0 < length s \<and> length s < 19 then atoi_fast s else ParseInt s)"

text \<open>Arithmetic on Go's \<open>int\<close> wraps around at 64 bits.\<close>

definition go_int :: "int \<Rightarrow> int" where
  "go_int x = (x + 9223372036854775808) mod 18446744073709551616 - 9223372036854775808"

definition go_sub :: "int \<Rightarrow> int \<Rightarrow> int" where
  "go_sub a b = go_int (a - b)"

definition go_mul :: "int \<Rightarrow> int \<Rightarrow> int" where
  "go_mul a b = go_int (a * b)"

text \<open>\<open>%v\<close> of an integer: its decimal digits, with a minus sign when negative.\<close>

definition digit_char :: "nat \<Rightarrow> char" where
  "digit_char d = ''0123456789'' ! d"

function dec_nat :: "nat \<Rightarrow> string" where
  "dec_nat n = (if n < 10 then [digit_char n] else dec_nat (n div 10) @ [digit_char (n mod 10)])"
  by pat_completeness auto
termination
  by (relation "measure id") auto

declare dec_nat.simps [simp del]

definition dec_int :: "int \<Rightarrow> string" where
  "dec_int i = (if i < 0 then CHR ''-'' # dec_nat (nat (- i)) else dec_nat (nat i))"

section \<open>The cache shim\<close>

text \<open>
  The cache backend holds, per key, the stored text and its time to live in seconds.
  A \<open>CRUDTool\<close> without a cache has \<open>RedisClient = None\<close> (the nil client). The
  \<open>fault\<close> argument of an operation is the error the driver reports for that call, if
  any; it is not looked at when the client is nil.
\<close>

type_synonym Redis = "string \<rightharpoonup> string \<times> nat"

record 'db CRUDTool =
  DB :: 'db
  RedisClient :: "Redis option"

definition CacheTTL :: nat where
  "CacheTTL = 5 * 60"

definition GenerateCacheKey :: "string \<Rightarrow> int \<Rightarrow> string" where
  "GenerateCacheKey tname i = tname @ '':'' @ dec_int i"

definition redis_get :: "error option \<Rightarrow> Redis \<Rightarrow> string \<Rightarrow> error + string" where
  "redis_get fault r key =
     (case fault of
        Some e \<Rightarrow> Inl e
      | None \<Rightarrow> (case r key of None \<Rightarrow> Inl RedisNil | Some (data, ttl) \<Rightarrow> Inr data))"

text \<open>
  \<open>GetFromCache\<close> returns whether it filled \<open>result\<close>; the model returns the decoded
  value on a hit and \<open>None\<close> on a miss. \<open>unmarshal\<close> is the JSON decoder for the type
  of \<open>result\<close>.
\<close>

definition GetFromCache ::
  "error option \<Rightarrow> (string \<Rightarrow> 'a option) \<Rightarrow> 'db CRUDTool \<Rightarrow> string \<Rightarrow> 'a option" where
  "GetFromCache fault unmarshal t key =
     (case RedisClient t of
        None \<Rightarrow> None
      | Some r \<Rightarrow>
          (case redis_get fault r key of
             Inl e \<Rightarrow> None
           | Inr data \<Rightarrow> unmarshal data))"

definition SetToCache ::
  "error option \<Rightarrow> ('a \<Rightarrow> error + string) \<Rightarrow> 'db CRUDTool \<Rightarrow> string \<Rightarrow> 'a
     \<Rightarrow> 'db CRUDTool \<times> error option" where
  "SetToCache fault marshal t key data =
     (case RedisClient t of
        None \<Rightarrow> (t, None)
      | Some r \<Rightarrow>
          (case marshal data of
             Inl e \<Rightarrow> (t, Some e)
           | Inr jsonData \<Rightarrow>
               (case fault of
                  Some e \<Rightarrow> (t, Some e)
                | None \<Rightarrow> (t\<lparr>RedisClient := Some (r(key \<mapsto> (jsonData, CacheTTL)))\<rparr>, None))))"

definition DeleteFromCache ::
  "error option \<Rightarrow> 'db CRUDTool \<Rightarrow> string \<Rightarrow> 'db CRUDTool \<times> error option" where
  "DeleteFromCache fault t key =
     (case RedisClient t of
        None \<Rightarrow> (t, None)
      | Some r \<Rightarrow>
          (case fault of
             Some e \<Rightarrow> (t, Some e)
           | None \<Rightarrow> (t\<lparr>RedisClient := Some (r(key := None))\<rparr>, None)))"


section \<open>The store\<close>

text \<open>
  The rows of table \<open>users\<close> (models/user.go): the primary key, the deletion marker
  \<open>deleted_at\<close> (\<open>None\<close> is SQL NULL, the record is active) and the two payload
  columns. The audit columns \<open>created_at\<close> and \<open>updated_at\<close>, which the ORM maintains by
  itself, and the rows of associated tables are not part of a row.
\<close>

record User =
  ID :: nat
  DeletedAt :: "nat option"
  Name :: string
  Age :: int

type_synonym users = "User list"

text \<open>
  The statements that the handlers send through the ORM, as operations on the table.
  Each takes the error the driver reports for it, if any (\<open>fault\<close>), and then fails
  without effect. A successful modifying statement gives the new table and the number
  of rows affected. The identifier of a request is an \<open>int\<close>, the key column is
  unsigned: a negative identifier matches no row.
\<close>

definition has_id :: "int \<Rightarrow> User \<Rightarrow> bool" where
  "has_id i u = (int (ID u) = i)"

definition active :: "User \<Rightarrow> bool" where
  "active u = (DeletedAt u = None)"

text \<open>\<open>db.First(model, id)\<close>: the active row with this key, or \<open>ErrRecordNotFound\<close>.\<close>

definition db_first :: "error option \<Rightarrow> users \<Rightarrow> int \<Rightarrow> error + User" where
  "db_first fault tbl i =
     (case fault of
        Some e \<Rightarrow> Inl e
      | None \<Rightarrow>
          (case find (\<lambda>u. has_id i u \<and> active u) tbl of
             None \<Rightarrow> Inl ErrRecordNotFound
           | Some u \<Rightarrow> Inr u))"

text \<open>
  \<open>db.Delete(model, id)\<close> on a model with a deletion marker: sets the marker of the
  active rows with this key.
\<close>

definition db_delete :: "error option \<Rightarrow> nat \<Rightarrow> users \<Rightarrow> int \<Rightarrow> error + users \<times> int" where
  "db_delete fault now tbl i =
     (case fault of
        Some e \<Rightarrow> Inl e
      | None \<Rightarrow>
          Inr (map (\<lambda>u. if has_id i u \<and> active u then u\<lparr>DeletedAt := Some now\<rparr> else u) tbl,
               int (length (filter (\<lambda>u. has_id i u \<and> active u) tbl))))"

text \<open>\<open>db.Unscoped().Delete(model, id)\<close>: removes the rows with this key, marked or not.\<close>

definition db_unscoped_delete :: "error option \<Rightarrow> users \<Rightarrow> int \<Rightarrow> error + users \<times> int" where
  "db_unscoped_delete fault tbl i =
     (case fault of
        Some e \<Rightarrow> Inl e
      | None \<Rightarrow>
          Inr (filter (\<lambda>u. \<not> has_id i u) tbl, int (length (filter (has_id i) tbl))))"

text \<open>
  \<open>tx.Unscoped().Delete(&models.User{}, ids)\<close>: removes the rows whose key is listed.
  An empty list gives the statement no condition, and the ORM refuses it.
\<close>

definition db_unscoped_delete_ids ::
  "error option \<Rightarrow> users \<Rightarrow> nat list \<Rightarrow> error + users \<times> int" where
  "db_unscoped_delete_ids fault tbl ids =
     (case fault of
        Some e \<Rightarrow> Inl e
      | None \<Rightarrow>
          if ids = [] then Inl ErrMissingWhereClause
          else Inr (filter (\<lambda>u. ID u \<notin> set ids) tbl,
                    int (length (filter (\<lambda>u. ID u \<in> set ids) tbl))))"

text \<open>
  \<open>db.Unscoped().Model(model).Where("id = ?", id).Update("deleted_at", nil)\<close>: clears the
  marker of every row with this key; the rows affected are the rows matched.
\<close>

definition db_restore :: "error option \<Rightarrow> users \<Rightarrow> int \<Rightarrow> error + users \<times> int" where
  "db_restore fault tbl i =
     (case fault of
        Some e \<Rightarrow> Inl e
      | None \<Rightarrow>
          Inr (map (\<lambda>u. if has_id i u then u\<lparr>DeletedAt := None\<rparr> else u) tbl,
               int (length (filter (has_id i) tbl))))"

text \<open>
  \<open>db.Save(model)\<close> writes every column of the model. With a zero primary key it
  inserts a new row under the key that the store's sequence hands out (\<open>new_key\<close>);
  otherwise it overwrites the row with the model's key, or inserts the model when there
  is no such row.
\<close>

definition db_save :: "error option \<Rightarrow> nat \<Rightarrow> users \<Rightarrow> User \<Rightarrow> error + users \<times> User" where
  "db_save fault new_key tbl m =
     (case fault of
        Some e \<Rightarrow> Inl e
      | None \<Rightarrow>
          if ID m = 0 then Inr (tbl @ [m\<lparr>ID := new_key\<rparr>], m\<lparr>ID := new_key\<rparr>)
          else if ID m \<in> set (map ID tbl)
          then Inr (map (\<lambda>u. if ID u = ID m then m else u) tbl, m)
          else Inr (tbl @ [m], m))"

subsection \<open>Running a built query\<close>

text \<open>
  How the store evaluates one predicate on a row, and how it orders rows, is the SQL
  engine's business and a parameter here: \<open>sat (q, args) u\<close> says whether row \<open>u\<close>
  satisfies the fragment \<open>q\<close> with arguments \<open>args\<close>, and \<open>order_by os rows\<close> is \<open>rows\<close>
  in the order asked for by the \<open>ORDER BY\<close> clauses \<open>os\<close>. The predicates of a query are
  combined by AND, and a query that is not \<open>Unscoped\<close> sees active rows only.
\<close>

definition matching ::
  "(string \<times> gvalue list \<Rightarrow> User \<Rightarrow> bool) \<Rightarrow> users \<Rightarrow> Stmt \<Rightarrow> users" where
  "matching sat tbl db = filter (\<lambda>u. active u \<and> list_all (\<lambda>w. sat w u) (wheres db)) tbl"

definition db_count ::
  "(string \<times> gvalue list \<Rightarrow> User \<Rightarrow> bool) \<Rightarrow> error option \<Rightarrow> users \<Rightarrow> Stmt \<Rightarrow> error + int" where
  "db_count sat fault tbl db =
     (case fault of
        Some e \<Rightarrow> Inl e
      | None \<Rightarrow> Inr (int (length (matching sat tbl db))))"

text \<open>
  \<open>LIMIT\<close> is written when the limit is set and not negative, \<open>OFFSET\<close> when the offset
  is positive.
\<close>

definition apply_offset :: "int option \<Rightarrow> 'a list \<Rightarrow> 'a list" where
  "apply_offset off rows =
     (case off of None \<Rightarrow> rows | Some n \<Rightarrow> if n > 0 then drop (nat n) rows else rows)"

definition apply_limit :: "int option \<Rightarrow> 'a list \<Rightarrow> 'a list" where
  "apply_limit lim rows =
     (case lim of None \<Rightarrow> rows | Some n \<Rightarrow> if n \<ge> 0 then take (nat n) rows else rows)"

definition db_find ::
  "(string \<times> gvalue list \<Rightarrow> User \<Rightarrow> bool) \<Rightarrow> (string list \<Rightarrow> users \<Rightarrow> users) \<Rightarrow>
     error option \<Rightarrow> users \<Rightarrow> Stmt \<Rightarrow> error + users" where
  "db_find sat order_by fault tbl db =
     (case fault of
        Some e \<Rightarrow> Inl e
      | None \<Rightarrow>
          Inr (apply_limit (limit db)
                (apply_offset (offset db) (order_by (orders db) (matching sat tbl db)))))"


section \<open>The transaction wrapper\<close>

text \<open>
  \<open>WithTransaction\<close> hands \<open>fn\<close> a transactional handle on the store. \<open>fn\<close> returns an
  error, or the state it leaves in the transaction together with what it wrote to the
  variables it captured. The ORM commits when \<open>fn\<close> returns no error and rolls back
  otherwise; beginning and committing can fail as well, and then nothing is applied.
\<close>

definition WithTransaction ::
  "error option \<Rightarrow> error option \<Rightarrow> ('db \<Rightarrow> error + 'db \<times> 'a) \<Rightarrow> 'db CRUDTool
     \<Rightarrow> 'db CRUDTool \<times> (error + 'a)" where
  "WithTransaction begin_fault commit_fault fn t =
     (case begin_fault of
        Some e \<Rightarrow> (t, Inl e)
      | None \<Rightarrow>
          (case fn (DB t) of
             Inl e \<Rightarrow> (t, Inl e)
           | Inr (tx, a) \<Rightarrow>
               (case commit_fault of
                  Some e \<Rightarrow> (t, Inl e)
                | None \<Rightarrow> (t\<lparr>DB := tx\<rparr>, Inr a))))"

section \<open>The handlers of gormtool/crud.go\<close>

text \<open>
  The handlers are written for any model; main.go uses them with \<open>models.User\<close>, and so
  does the model. \<open>tname\<close> is the \<open>%T\<close> of the model argument in the cache key. A handler
  returns the tool (store and cache) as it leaves it, the response it sends, and the
  error it returns. The deferred \<open>LogOperation\<close> only writes to the logger.
\<close>

text \<open>
  A request body that binds to a \<open>User\<close>: JSON decoding onto the model overwrites the
  fields whose key is present and leaves the others as they are.
\<close>

record UserPatch =
  p_ID :: "nat option"
  p_DeletedAt :: "nat option option"
  p_Name :: "string option"
  p_Age :: "int option"

definition bind_user :: "UserPatch \<Rightarrow> User \<Rightarrow> User" where
  "bind_user p u =
     \<lparr>ID = (case p_ID p of None \<Rightarrow> ID u | Some v \<Rightarrow> v),
      DeletedAt = (case p_DeletedAt p of None \<Rightarrow> DeletedAt u | Some v \<Rightarrow> v),
      Name = (case p_Name p of None \<Rightarrow> Name u | Some v \<Rightarrow> v),
      Age = (case p_Age p of None \<Rightarrow> Age u | Some v \<Rightarrow> v)\<rparr>"

definition UpdateByID ::
  "error option \<Rightarrow> error option \<Rightarrow> nat \<Rightarrow> error option \<Rightarrow> string \<Rightarrow> users CRUDTool \<Rightarrow>
     Context \<Rightarrow> string + UserPatch \<Rightarrow> users CRUDTool \<times> User Response \<times> error option" where
  "UpdateByID first_fault save_fault new_key redis_fault tname t c body =
     (case Atoi (param_id c) of
        (i, Some e) \<Rightarrow> (t, reply 400 MsgInvalidID, Some e)
      | (i, None) \<Rightarrow>
          (case db_first first_fault (DB t) i of
             Inl e \<Rightarrow>
               if e = ErrRecordNotFound then (t, reply 404 MsgRecordNotFound, Some e)
               else (t, reply 500 MsgQueryFailed, Some e)
           | Inr model \<Rightarrow>
               (case body of
                  Inl e \<Rightarrow> (t, reply 400 MsgParamError, Some (ErrBind e))
                | Inr patch \<Rightarrow>
                    (case db_save save_fault new_key (DB t) (bind_user patch model) of
                       Inl e \<Rightarrow> (t, reply 500 MsgUpdateFailed, Some e)
                     | Inr (tbl, saved) \<Rightarrow>
                         (fst (DeleteFromCache redis_fault (t\<lparr>DB := tbl\<rparr>) (GenerateCacheKey tname i)),
                          (reply 200 MsgUpdateOK)\<lparr>Data := Some saved\<rparr>, None)))))"

definition SoftDeleteByID ::
  "error option \<Rightarrow> error option \<Rightarrow> nat \<Rightarrow> string \<Rightarrow> users CRUDTool \<Rightarrow> Context \<Rightarrow>
     users CRUDTool \<times> User Response \<times> error option" where
  "SoftDeleteByID delete_fault redis_fault now tname t c =
     (case Atoi (param_id c) of
        (i, Some e) \<Rightarrow> (t, reply 400 MsgInvalidID, Some e)
      | (i, None) \<Rightarrow>
          (case db_delete delete_fault now (DB t) i of
             Inl e \<Rightarrow> (t, reply 500 MsgDeleteFailed, Some e)
           | Inr (tbl, rowsAffected) \<Rightarrow>
               if rowsAffected = 0
               then (t\<lparr>DB := tbl\<rparr>, reply 404 MsgRecordNotFound, Some ErrRecordNotFound)
               else (fst (DeleteFromCache redis_fault (t\<lparr>DB := tbl\<rparr>) (GenerateCacheKey tname i)),
                     reply 200 MsgDeleteOK, None)))"

definition HardDeleteByID ::
  "error option \<Rightarrow> error option \<Rightarrow> string \<Rightarrow> users CRUDTool \<Rightarrow> Context \<Rightarrow>
     users CRUDTool \<times> User Response \<times> error option" where
  "HardDeleteByID delete_fault redis_fault tname t c =
     (case Atoi (param_id c) of
        (i, Some e) \<Rightarrow> (t, reply 400 MsgInvalidID, Some e)
      | (i, None) \<Rightarrow>
          (case db_unscoped_delete delete_fault (DB t) i of
             Inl e \<Rightarrow> (t, reply 500 MsgDeleteFailed, Some e)
           | Inr (tbl, rowsAffected) \<Rightarrow>
               if rowsAffected = 0
               then (t\<lparr>DB := tbl\<rparr>, reply 404 MsgRecordNotFound, Some ErrRecordNotFound)
               else (fst (DeleteFromCache redis_fault (t\<lparr>DB := tbl\<rparr>) (GenerateCacheKey tname i)),
                     reply 200 MsgHardDeleteOK, None)))"

text \<open>\<open>RestoreSoftDelete\<close> ends with the response: it makes no call to the cache.\<close>

definition RestoreSoftDelete ::
  "error option \<Rightarrow> string \<Rightarrow> users CRUDTool \<Rightarrow> Context \<Rightarrow>
     users CRUDTool \<times> User Response \<times> error option" where
  "RestoreSoftDelete update_fault tname t c =
     (case Atoi (param_id c) of
        (i, Some e) \<Rightarrow> (t, reply 400 MsgInvalidID, Some e)
      | (i, None) \<Rightarrow>
          (case db_restore update_fault (DB t) i of
             Inl e \<Rightarrow> (t, reply 500 MsgRestoreFailed, Some e)
           | Inr (tbl, rowsAffected) \<Rightarrow>
               if rowsAffected = 0
               then (t\<lparr>DB := tbl\<rparr>, reply 404 MsgRecordNotFound, Some ErrRecordNotFound)
               else (t\<lparr>DB := tbl\<rparr>, reply 200 MsgRestoreOK, None)))"

subsection \<open>The pager\<close>

text \<open>
  The paging parameters of \<open>GetByQueryBuilder\<close>: the error of \<open>Atoi\<close> is dropped and only
  its value is looked at. The query key of the page size is \<open>pagesize\<close>.
\<close>

definition paging :: "Context \<Rightarrow> int \<times> int" where
  "paging c =
     (let page = fst (Atoi (DefaultQuery c ''page'' ''1''));
          pageSize = fst (Atoi (DefaultQuery c ''pagesize'' ''10''))
      in (if page < 1 then 1 else page, if pageSize < 1 then 10 else pageSize))"

definition paged :: "Stmt \<Rightarrow> int \<Rightarrow> int \<Rightarrow> Stmt" where
  "paged db page pageSize = Offset (Limit db pageSize) (go_mul (go_sub page 1) pageSize)"

text \<open>
  The handler does not change the store. A panic of \<open>BuildQuery\<close> is not recovered by
  the handler and leaves it.
\<close>

definition GetByQueryBuilder ::
  "(string \<times> gvalue list \<Rightarrow> User \<Rightarrow> bool) \<Rightarrow> (string list \<Rightarrow> users \<Rightarrow> users) \<Rightarrow>
     error option \<Rightarrow> error option \<Rightarrow> users CRUDTool \<Rightarrow> Context \<Rightarrow> QueryBuilder option \<Rightarrow>
     panic + users Response \<times> error option" where
  "GetByQueryBuilder sat order_by count_fault find_fault t c qb =
     (case paging c of
        (page, pageSize) \<Rightarrow>
          (case BuildQuery new_stmt qb of
             Inl p \<Rightarrow> Inl p
           | Inr db \<Rightarrow>
               (case db_count sat count_fault (DB t) db of
                  Inl e \<Rightarrow> Inr (reply 500 MsgQueryFailed, Some e)
                | Inr total_n \<Rightarrow>
                    (case db_find sat order_by find_fault (DB t) (paged db page pageSize) of
                       Inl e \<Rightarrow> Inr (reply 500 MsgQueryFailed, Some e)
                     | Inr models \<Rightarrow>
                         Inr (\<lparr>Code = 200, Message = MsgQueryOK, Data = Some models,
                               PageInfo = Some \<lparr>Page = page, PageSize = pageSize, Total = total_n\<rparr>\<rparr>,
                              None)))))"

section \<open>The handlers of main.go\<close>

record Profile =
  ProfileID :: nat
  UserID :: nat
  Avatar :: string
  Bio :: string

record Tag =
  TagID :: nat
  TagName :: string

record payload =
  PUser :: User
  PProfile :: Profile
  PTags :: "Tag list"

text \<open>
  \<open>createUserWithEverything\<close>. What the three ORM calls inside the transaction do to
  the store is left open: \<open>create_user\<close>, \<open>create_profile\<close> and \<open>append_tags\<close> are any
  functions from the transactional state to an error or to the next state (and the
  record as the ORM fills it in, with its new key).
\<close>

definition createUserWithEverything ::
  "('db \<Rightarrow> User \<Rightarrow> error + 'db \<times> User) \<Rightarrow> ('db \<Rightarrow> Profile \<Rightarrow> error + 'db \<times> Profile) \<Rightarrow>
     ('db \<Rightarrow> User \<Rightarrow> Tag list \<Rightarrow> error + 'db) \<Rightarrow> error option \<Rightarrow> error option \<Rightarrow>
     'db CRUDTool \<Rightarrow> string + payload \<Rightarrow> 'db CRUDTool \<times> int \<times> User H" where
  "createUserWithEverything create_user create_profile append_tags begin_fault commit_fault t body =
     (case body of
        Inl e \<Rightarrow> (t, 400, HMsg (ErrBind e))
      | Inr req \<Rightarrow>
          (case WithTransaction begin_fault commit_fault
                  (\<lambda>tx. case create_user tx (PUser req) of
                          Inl e \<Rightarrow> Inl e
                        | Inr (tx1, user) \<Rightarrow>
                            (case create_profile tx1 ((PProfile req)\<lparr>UserID := ID user\<rparr>) of
                               Inl e \<Rightarrow> Inl e
                             | Inr (tx2, profile) \<Rightarrow>
                                 (case append_tags tx2 user (PTags req) of
                                    Inl e \<Rightarrow> Inl e
                                  | Inr tx3 \<Rightarrow> Inr (tx3, user)))) t of
             (t', Inl e) \<Rightarrow> (t', 500, HMsg e)
           | (t', Inr user) \<Rightarrow> (t', 201, HData user)))"

text \<open>
  \<open>batchHardDelete\<close>: the function passed to the transaction returns only the error
  of the delete; the response is built from the submitted list.
\<close>

definition batchHardDelete ::
  "error option \<Rightarrow> error option \<Rightarrow> error option \<Rightarrow> users CRUDTool \<Rightarrow> string + nat list
     \<Rightarrow> users CRUDTool \<times> int \<times> User H" where
  "batchHardDelete begin_fault delete_fault commit_fault t body =
     (case body of
        Inl e \<Rightarrow> (t, 400, HMsg (ErrBind e))
      | Inr ids \<Rightarrow>
          (case WithTransaction begin_fault commit_fault
                  (\<lambda>tx. case db_unscoped_delete_ids delete_fault tx ids of
                          Inl e \<Rightarrow> Inl e
                        | Inr (tx1, rowsAffected) \<Rightarrow> Inr (tx1, ())) t of
             (t', Inl e) \<Rightarrow> (t', 500, HMsg e)
           | (t', Inr u) \<Rightarrow> (t', 200, HAffected (int (length ids)))))"


section \<open>Predicates used in the statements\<close>

text \<open>The operators named in the comment of \<open>QueryCondition.Operator\<close>.\<close>

definition recognized :: "string list" where
  "recognized = [''='', ''!='', ''>'', ''<'', ''>='', ''<='', ''LIKE'', ''IN'', ''NOT IN'', ''BETWEEN'']"

definition is_string :: "gvalue \<Rightarrow> bool" where
  "is_string v = (case v of VString s \<Rightarrow> True | _ \<Rightarrow> False)"

text \<open>A condition that the \<open>LIKE\<close> case can handle: not a \<open>LIKE\<close>, or one on a string.\<close>

definition like_ok :: "QueryCondition \<Rightarrow> bool" where
  "like_ok c = (if Operator c = ''LIKE'' then is_string (Value c) else True)"

text \<open>A generic slice (\<open>[]interface{}\<close>) of exactly two elements.\<close>

definition is_pair :: "gvalue \<Rightarrow> bool" where
  "is_pair v = (case v of VSlice vs \<Rightarrow> length vs = 2 | _ \<Rightarrow> False)"

text \<open>A numeric string: an optional sign, then one or more decimal digits and nothing else.\<close>

definition numeric :: "string \<Rightarrow> bool" where
  "numeric s = (case strip_sign s of (neg, ds) \<Rightarrow> ds \<noteq> [] \<and> list_all is_digit ds)"

text \<open>The run of digits at the front of a string, after its sign.\<close>

definition leading_digits :: "string \<Rightarrow> string" where
  "leading_digits s = takeWhile is_digit (snd (strip_sign s))"

text \<open>A key above every key of a table.\<close>

definition next_id :: "users \<Rightarrow> nat" where
  "next_id tbl = Suc (foldl max 0 (map ID tbl))"

text \<open>The primary key of a table: no two rows share a key, and the keys start at 1.\<close>

definition unique_positive_keys :: "users \<Rightarrow> bool" where
  "unique_positive_keys tbl = (distinct (map ID tbl) \<and> list_all (\<lambda>u. 0 < ID u) tbl)"

section \<open>The cache shim without a backend\<close>

text \<open>
  C7. When no cache backend is configured (the client is nil), for every key
  \<open>GetFromCache\<close> reports a miss, and \<open>SetToCache\<close> and \<open>DeleteFromCache\<close> return no
  error and leave the tool as it is, whatever the driver would have answered.
\<close>

theorem nil_cache_misses_and_succeeds:
  "RedisClient t = None \<Longrightarrow>
     GetFromCache fault1 unmarshal t key = None
     \<and> SetToCache fault2 marshal t key data = (t, None)
     \<and> DeleteFromCache fault3 t key = (t, None)"
  by (simp add: GetFromCache_def SetToCache_def DeleteFromCache_def)

theorem nil_cache_misses_and_succeeds_witness:
  "RedisClient \<lparr>DB = ([] :: users), RedisClient = None\<rparr> = None
   \<and> GetFromCache (Some (ErrRedis ''down'')) (\<lambda>s. Some (length s))
        \<lparr>DB = ([] :: users), RedisClient = None\<rparr> ''*models.User:1'' = None
   \<and> SetToCache None (\<lambda>n :: nat. Inr ''{}'') \<lparr>DB = ([] :: users), RedisClient = None\<rparr>
        ''*models.User:1'' 7 = (\<lparr>DB = [], RedisClient = None\<rparr>, None)
   \<and> DeleteFromCache None \<lparr>DB = ([] :: users), RedisClient = None\<rparr> ''*models.User:1''
        = (\<lparr>DB = [], RedisClient = None\<rparr>, None)"
  using nil_cache_misses_and_succeeds
    [of "\<lparr>DB = ([] :: users), RedisClient = None\<rparr>" "Some (ErrRedis ''down'')"
        "\<lambda>s. Some (length s)" "''*models.User:1''" None "\<lambda>n :: nat. Inr ''{}''" 7 None]
  by simp


section \<open>The query builder\<close>

lemma panic_unique: "(p :: panic) = InterfaceConversion"
  by (cases p) simp

lemma build_conditions_append:
  "build_conditions db (cs1 @ cs2) =
     (case build_conditions db cs1 of Inl p \<Rightarrow> Inl p | Inr d \<Rightarrow> build_conditions d cs2)"
  by (induction cs1 arbitrary: db) (auto split: sum.splits)

lemma apply_condition_panic_iff:
  "apply_condition db c = Inl p \<longleftrightarrow> \<not> like_ok c"
  unfolding panic_unique[of p]
  by (auto simp: apply_condition_def like_ok_def is_string_def split: gvalue.splits list.splits)

lemma build_conditions_total_iff:
  "(\<exists>d. build_conditions db cs = Inr d) \<longleftrightarrow> list_all like_ok cs"
proof (induction cs arbitrary: db)
  case Nil
  show ?case by simp
next
  case (Cons c cs)
  show ?case
  proof (cases "apply_condition db c")
    case (Inl p)
    then have "\<not> like_ok c" using apply_condition_panic_iff by blast
    with Inl show ?thesis by simp
  next
    case (Inr d)
    then have "like_ok c" using apply_condition_panic_iff[of db c] by (metis sum.distinct(1))
    with Inr Cons.IH[of d] show ?thesis by simp
  qed
qed

lemma apply_condition_dropped:
  "Operator c \<notin> set recognized \<or> (Operator c = ''BETWEEN'' \<and> \<not> is_pair (Value c))
     \<Longrightarrow> apply_condition db c = Inr db"
  by (auto simp: apply_condition_def recognized_def is_pair_def split: gvalue.splits list.splits)

lemma apply_condition_between:
  "Operator c = ''BETWEEN'' \<Longrightarrow> Value c = VSlice [a, b]
     \<Longrightarrow> apply_condition db c = Inr (Where db (Field c @ '' BETWEEN ? AND ?'') [a, b])"
  by (simp add: apply_condition_def)

text \<open>
  C9. \<open>BuildQuery\<close> returns a query exactly when every condition with operator \<open>LIKE\<close>
  carries a string value; with any \<open>LIKE\<close> condition on a value that is not a string
  (nil included) it panics on the unchecked type assertion instead of dropping the
  condition or returning an error.
\<close>

theorem BuildQuery_total_iff_like_on_strings:
  "((\<exists>d. BuildQuery db (Some qb) = Inr d) \<longleftrightarrow> list_all like_ok (Conditions qb))
   \<and> (BuildQuery db (Some qb) = Inl InterfaceConversion \<longleftrightarrow> \<not> list_all like_ok (Conditions qb))"
proof -
  have a: "(\<exists>d. BuildQuery db (Some qb) = Inr d) \<longleftrightarrow> list_all like_ok (Conditions qb)"
    using build_conditions_total_iff[of db "Conditions qb"]
    by (auto simp: BuildQuery_def split: sum.splits)
  have b: "BuildQuery db (Some qb) = Inl InterfaceConversion
             \<longleftrightarrow> \<not> (\<exists>d. BuildQuery db (Some qb) = Inr d)"
    by (cases "BuildQuery db (Some qb)") (auto intro: panic_unique)
  show ?thesis using a b by simp
qed

theorem BuildQuery_total_iff_like_on_strings_witness:
  "BuildQuery new_stmt
     (Some \<lparr>Conditions = [\<lparr>Field = ''name'', Operator = ''LIKE'', Value = VInt 5\<rparr>],
            Sorts = [], Preloads = []\<rparr>) = Inl InterfaceConversion
   \<and> (\<exists>d. BuildQuery new_stmt
         (Some \<lparr>Conditions = [\<lparr>Field = ''name'', Operator = ''LIKE'', Value = VString ''Jo''\<rparr>],
                Sorts = [], Preloads = []\<rparr>) = Inr d)"
  using BuildQuery_total_iff_like_on_strings
    [of new_stmt "\<lparr>Conditions = [\<lparr>Field = ''name'', Operator = ''LIKE'', Value = VInt 5\<rparr>],
                    Sorts = [], Preloads = []\<rparr>"]
    BuildQuery_total_iff_like_on_strings
    [of new_stmt "\<lparr>Conditions = [\<lparr>Field = ''name'', Operator = ''LIKE'', Value = VString ''Jo''\<rparr>],
                    Sorts = [], Preloads = []\<rparr>"]
  by (simp add: like_ok_def is_string_def)

text \<open>
  C6, as the claim states it, fails: a \<open>BETWEEN\<close> condition whose two bounds come as a
  typed slice (\<open>[]int{10, 20}\<close>) does not pass the assertion to \<open>[]interface{}\<close> and adds
  no predicate.
\<close>

theorem between_typed_slice_dropped:
  "BuildQuery new_stmt
     (Some \<lparr>Conditions = [\<lparr>Field = ''age'', Operator = ''BETWEEN'', Value = VIntSlice [10, 20]\<rparr>],
            Sorts = [], Preloads = []\<rparr>) = Inr new_stmt"
  by (simp add: BuildQuery_def apply_condition_def build_sorts_def build_preloads_def)

lemma apply_condition_shape:
  assumes r: "apply_condition db c = Inr d"
  shows "apply_condition db2 c
           = Inr (db2\<lparr>wheres := wheres db2 @ drop (length (wheres db)) (wheres d)\<rparr>)"
proof (cases "Operator c \<in> set [''='', ''!='', ''>'', ''<'', ''>='', ''<='']")
  case True
  have "d = Where db (Field c @ '' '' @ Operator c @ '' ?'') [Value c]"
    using r True by (simp add: apply_condition_def)
  moreover have "apply_condition db2 c
                   = Inr (Where db2 (Field c @ '' '' @ Operator c @ '' ?'') [Value c])"
    using True by (simp add: apply_condition_def)
  ultimately show ?thesis by (simp add: Where_def)
next
  case F1: False
  show ?thesis
  proof (cases "Operator c = ''LIKE''")
    case True
    then obtain s where v: "Value c = VString s"
      using r F1 by (cases "Value c") (simp_all add: apply_condition_def)
    have "d = Where db (Field c @ '' LIKE ?'') [VString (''%'' @ s @ ''%'')]"
      using r True v by (simp add: apply_condition_def)
    moreover have "apply_condition db2 c
                     = Inr (Where db2 (Field c @ '' LIKE ?'') [VString (''%'' @ s @ ''%'')])"
      using True v by (simp add: apply_condition_def)
    ultimately show ?thesis by (simp add: Where_def)
  next
    case F2: False
    show ?thesis
    proof (cases "Operator c = ''IN''")
      case True
      have "d = Where db (Field c @ '' IN (?)'') [Value c]"
        using r True by (simp add: apply_condition_def)
      moreover have "apply_condition db2 c = Inr (Where db2 (Field c @ '' IN (?)'') [Value c])"
        using True by (simp add: apply_condition_def)
      ultimately show ?thesis by (simp add: Where_def)
    next
      case F3: False
      show ?thesis
      proof (cases "Operator c = ''NOT IN''")
        case True
        have "d = Where db (Field c @ '' NOT IN (?)'') [Value c]"
          using r True by (simp add: apply_condition_def)
        moreover have "apply_condition db2 c
                         = Inr (Where db2 (Field c @ '' NOT IN (?)'') [Value c])"
          using True by (simp add: apply_condition_def)
        ultimately show ?thesis by (simp add: Where_def)
      next
        case F4: False
        show ?thesis
        proof (cases "Operator c = ''BETWEEN'' \<and> (\<exists>a b. Value c = VSlice [a, b])")
          case True
          then obtain a b where v: "Value c = VSlice [a, b]" by blast
          have "d = Where db (Field c @ '' BETWEEN ? AND ?'') [a, b]"
            using r True v by (simp add: apply_condition_def)
          moreover have "apply_condition db2 c
                           = Inr (Where db2 (Field c @ '' BETWEEN ? AND ?'') [a, b])"
            using True v by (simp add: apply_condition_def)
          ultimately show ?thesis by (simp add: Where_def)
        next
          case F5: False
          have same: "apply_condition x c = Inr x" for x
            using F1 F2 F3 F4 F5
            by (auto simp: apply_condition_def split: gvalue.splits list.splits)
          have "d = db" using r same[of db] by simp
          then show ?thesis using same[of db2] by simp
        qed
      qed
    qed
  qed
qed

lemma apply_condition_appends:
  "apply_condition db c = Inr d
     \<Longrightarrow> \<exists>w. \<forall>db2. apply_condition db2 c = Inr (db2\<lparr>wheres := wheres db2 @ w\<rparr>)"
proof -
  assume r: "apply_condition db c = Inr d"
  have "\<forall>db2. apply_condition db2 c
          = Inr (db2\<lparr>wheres := wheres db2 @ drop (length (wheres db)) (wheres d)\<rparr>)"
    using apply_condition_shape[OF r] by blast
  then show ?thesis by blast
qed

lemma build_conditions_appends:
  "build_conditions db cs = Inr d
     \<Longrightarrow> \<exists>ws. \<forall>db2. build_conditions db2 cs = Inr (db2\<lparr>wheres := wheres db2 @ ws\<rparr>)"
proof (induction cs arbitrary: db d)
  case Nil
  have "\<forall>db2. build_conditions db2 [] = Inr (db2\<lparr>wheres := wheres db2 @ []\<rparr>)" by simp
  then show ?case by blast
next
  case (Cons c cs)
  from Cons.prems obtain d1 where a: "apply_condition db c = Inr d1"
    and b: "build_conditions d1 cs = Inr d"
    by (auto split: sum.splits)
  obtain w where w: "\<forall>db2. apply_condition db2 c = Inr (db2\<lparr>wheres := wheres db2 @ w\<rparr>)"
    using apply_condition_appends[OF a] by blast
  obtain ws where ws: "\<forall>db2. build_conditions db2 cs = Inr (db2\<lparr>wheres := wheres db2 @ ws\<rparr>)"
    using Cons.IH[OF b] by blast
  have "\<forall>db2. build_conditions db2 (c # cs) = Inr (db2\<lparr>wheres := wheres db2 @ (w @ ws)\<rparr>)"
    using w ws by simp
  then show ?case by blast
qed

lemma build_sorts_wheres:
  "build_sorts (d\<lparr>wheres := w\<rparr>) ss = (build_sorts d ss)\<lparr>wheres := w\<rparr>"
  unfolding build_sorts_def by (induction ss rule: rev_induct) (simp_all add: Order_def)

lemma build_preloads_wheres:
  "build_preloads (d\<lparr>wheres := w\<rparr>) ps = (build_preloads d ps)\<lparr>wheres := w\<rparr>"
  unfolding build_preloads_def by (induction ps rule: rev_induct) (simp_all add: Preload_def)

lemma wheres_build_sorts: "wheres (build_sorts d ss) = wheres d"
  unfolding build_sorts_def by (induction ss arbitrary: d) (simp_all add: Order_def)

lemma wheres_build_preloads: "wheres (build_preloads d ps) = wheres d"
  unfolding build_preloads_def by (induction ps arbitrary: d) (simp_all add: Preload_def)

lemma BuildQuery_between_inserted:
  assumes op: "Operator c = ''BETWEEN''" and v: "Value c = VSlice [a, b]"
    and r0: "BuildQuery db (Some (qb\<lparr>Conditions := cs1 @ cs2\<rparr>)) = Inr d0"
  shows "\<exists>d1 ws2.
           BuildQuery db (Some (qb\<lparr>Conditions := cs1\<rparr>)) = Inr d1
         \<and> wheres d0 = wheres d1 @ ws2
         \<and> BuildQuery db (Some (qb\<lparr>Conditions := cs1 @ c # cs2\<rparr>))
             = Inr (d0\<lparr>wheres := wheres d1 @ (Field c @ '' BETWEEN ? AND ?'', [a, b]) # ws2\<rparr>)"
proof -
  let ?fin = "\<lambda>d. build_preloads (build_sorts d (Sorts qb)) (Preloads qb)"
  let ?pred = "(Field c @ '' BETWEEN ? AND ?'', [a, b])"
  from r0 obtain e0 where e0: "build_conditions db (cs1 @ cs2) = Inr e0" and d0: "d0 = ?fin e0"
    by (auto simp: BuildQuery_def split: sum.splits)
  from e0 obtain e1 where e1: "build_conditions db cs1 = Inr e1"
    and e2: "build_conditions e1 cs2 = Inr e0"
    by (auto simp: build_conditions_append split: sum.splits)
  obtain ws2 where ws2: "\<forall>db2. build_conditions db2 cs2 = Inr (db2\<lparr>wheres := wheres db2 @ ws2\<rparr>)"
    using build_conditions_appends[OF e2] by blast
  have e0w: "e0 = e1\<lparr>wheres := wheres e1 @ ws2\<rparr>" using ws2 e2 by simp
  have q1: "BuildQuery db (Some (qb\<lparr>Conditions := cs1\<rparr>)) = Inr (?fin e1)"
    using e1 by (simp add: BuildQuery_def)
  have w1: "wheres (?fin e1) = wheres e1"
    by (simp add: wheres_build_sorts wheres_build_preloads)
  have w0: "wheres d0 = wheres e1 @ ws2"
    unfolding d0 by (simp add: wheres_build_sorts wheres_build_preloads e0w)
  have "build_conditions db (cs1 @ c # cs2)
          = build_conditions (Where e1 (Field c @ '' BETWEEN ? AND ?'') [a, b]) cs2"
    using e1 apply_condition_between[OF op v, of e1] by (simp add: build_conditions_append)
  also have "\<dots> = Inr (e0\<lparr>wheres := wheres e1 @ ?pred # ws2\<rparr>)"
    using ws2 by (simp add: Where_def e0w)
  finally have "BuildQuery db (Some (qb\<lparr>Conditions := cs1 @ c # cs2\<rparr>))
                  = Inr (?fin (e0\<lparr>wheres := wheres e1 @ ?pred # ws2\<rparr>))"
    by (simp add: BuildQuery_def)
  then have q: "BuildQuery db (Some (qb\<lparr>Conditions := cs1 @ c # cs2\<rparr>))
                  = Inr (d0\<lparr>wheres := wheres (?fin e1) @ ?pred # ws2\<rparr>)"
    unfolding d0 w1 by (simp add: build_sorts_wheres build_preloads_wheres)
  show ?thesis
    using q1 w0 q w1 by (intro exI[of _ "?fin e1"] exI[of _ ws2]) simp
qed

lemma BuildQuery_between_panics:
  assumes op: "Operator c = ''BETWEEN''"
    and r0: "BuildQuery db (Some (qb\<lparr>Conditions := cs1 @ cs2\<rparr>)) = Inl p"
  shows "BuildQuery db (Some (qb\<lparr>Conditions := cs1 @ c # cs2\<rparr>)) = Inl p"
proof -
  have ok: "like_ok c" using op by (simp add: like_ok_def)
  have "\<not> (\<exists>d. build_conditions db (cs1 @ cs2) = Inr d)"
    using r0 by (auto simp: BuildQuery_def split: sum.splits)
  then have "\<not> list_all like_ok (cs1 @ cs2)"
    using build_conditions_total_iff by blast
  then have "\<not> list_all like_ok (cs1 @ c # cs2)" using ok by simp
  then have "\<not> (\<exists>d. build_conditions db (cs1 @ c # cs2) = Inr d)"
    using build_conditions_total_iff by blast
  then obtain p' where "build_conditions db (cs1 @ c # cs2) = Inl p'"
    by (cases "build_conditions db (cs1 @ c # cs2)") auto
  then have "BuildQuery db (Some (qb\<lparr>Conditions := cs1 @ c # cs2\<rparr>)) = Inl p'"
    by (simp add: BuildQuery_def)
  then show ?thesis using panic_unique[of p] panic_unique[of p'] by simp
qed

text \<open>
  C6, amended. In every condition list, a condition whose operator is not in the
  recognized set, and a \<open>BETWEEN\<close> condition whose value is not a generic slice
  (\<open>[]interface{}\<close>) of exactly two elements, can be taken out of the list without
  changing what \<open>BuildQuery\<close> returns: it adds no predicate. A \<open>BETWEEN\<close> condition
  whose value is the generic slice \<open>[a, b]\<close> adds the predicate \<open>field BETWEEN ? AND ?\<close>
  with \<open>a\<close> and \<open>b\<close> bound in this order (SQL's range test, which includes both
  bounds): the query that \<open>BuildQuery\<close> returns is the one it returns without the
  condition, with that predicate put in after the predicates of the conditions before
  it; and \<open>BuildQuery\<close> panics with the condition exactly when it panics without it.
\<close>

theorem BuildQuery_drops_and_between:
  "(Operator c \<notin> set recognized \<or> (Operator c = ''BETWEEN'' \<and> \<not> is_pair (Value c))
      \<longrightarrow> BuildQuery db (Some (qb\<lparr>Conditions := cs1 @ c # cs2\<rparr>))
            = BuildQuery db (Some (qb\<lparr>Conditions := cs1 @ cs2\<rparr>)))
   \<and> (Operator c = ''BETWEEN'' \<and> Value c = VSlice [a, b]
      \<longrightarrow> build_conditions db (cs1 @ c # cs2)
            = (case build_conditions db cs1 of
                 Inl p \<Rightarrow> Inl p
               | Inr d \<Rightarrow> build_conditions (Where d (Field c @ '' BETWEEN ? AND ?'') [a, b]) cs2))
   \<and> (Operator c = ''BETWEEN'' \<and> Value c = VSlice [a, b]
      \<longrightarrow> (case BuildQuery db (Some (qb\<lparr>Conditions := cs1 @ cs2\<rparr>)) of
             Inl p \<Rightarrow> BuildQuery db (Some (qb\<lparr>Conditions := cs1 @ c # cs2\<rparr>)) = Inl p
           | Inr d0 \<Rightarrow>
               (\<exists>d1 ws2.
                  BuildQuery db (Some (qb\<lparr>Conditions := cs1\<rparr>)) = Inr d1
                \<and> wheres d0 = wheres d1 @ ws2
                \<and> BuildQuery db (Some (qb\<lparr>Conditions := cs1 @ c # cs2\<rparr>))
                    = Inr (d0\<lparr>wheres :=
                             wheres d1 @ (Field c @ '' BETWEEN ? AND ?'', [a, b]) # ws2\<rparr>))))"
proof (intro conjI impI)
  assume "Operator c \<notin> set recognized \<or> (Operator c = ''BETWEEN'' \<and> \<not> is_pair (Value c))"
  then show "BuildQuery db (Some (qb\<lparr>Conditions := cs1 @ c # cs2\<rparr>))
               = BuildQuery db (Some (qb\<lparr>Conditions := cs1 @ cs2\<rparr>))"
    by (auto simp: BuildQuery_def build_conditions_append apply_condition_dropped
        split: sum.splits)
next
  assume "Operator c = ''BETWEEN'' \<and> Value c = VSlice [a, b]"
  then show "build_conditions db (cs1 @ c # cs2)
               = (case build_conditions db cs1 of
                    Inl p \<Rightarrow> Inl p
                  | Inr d \<Rightarrow> build_conditions (Where d (Field c @ '' BETWEEN ? AND ?'') [a, b]) cs2)"
    by (auto simp: build_conditions_append apply_condition_between split: sum.splits)
next
  assume h: "Operator c = ''BETWEEN'' \<and> Value c = VSlice [a, b]"
  show "case BuildQuery db (Some (qb\<lparr>Conditions := cs1 @ cs2\<rparr>)) of
          Inl p \<Rightarrow> BuildQuery db (Some (qb\<lparr>Conditions := cs1 @ c # cs2\<rparr>)) = Inl p
        | Inr d0 \<Rightarrow>
            (\<exists>d1 ws2.
               BuildQuery db (Some (qb\<lparr>Conditions := cs1\<rparr>)) = Inr d1
             \<and> wheres d0 = wheres d1 @ ws2
             \<and> BuildQuery db (Some (qb\<lparr>Conditions := cs1 @ c # cs2\<rparr>))
                 = Inr (d0\<lparr>wheres :=
                          wheres d1 @ (Field c @ '' BETWEEN ? AND ?'', [a, b]) # ws2\<rparr>))"
  proof (cases "BuildQuery db (Some (qb\<lparr>Conditions := cs1 @ cs2\<rparr>))")
    case (Inl p)
    then show ?thesis using BuildQuery_between_panics[OF conjunct1[OF h] Inl] by simp
  next
    case (Inr d0)
    then show ?thesis
      using BuildQuery_between_inserted[OF conjunct1[OF h] conjunct2[OF h] Inr] by simp
  qed
qed

theorem BuildQuery_drops_and_between_witness:
  "BuildQuery new_stmt
     (Some \<lparr>Conditions = [\<lparr>Field = ''age'', Operator = ''~='', Value = VInt 3\<rparr>],
            Sorts = [], Preloads = []\<rparr>) = Inr new_stmt
   \<and> BuildQuery new_stmt
     (Some \<lparr>Conditions = [\<lparr>Field = ''age'', Operator = ''BETWEEN'', Value = VSlice [VInt 10]\<rparr>],
            Sorts = [], Preloads = []\<rparr>) = Inr new_stmt
   \<and> build_conditions new_stmt
       [\<lparr>Field = ''age'', Operator = ''BETWEEN'', Value = VSlice [VInt 10, VInt 20]\<rparr>]
     = Inr (new_stmt\<lparr>wheres := [(''age BETWEEN ? AND ?'', [VInt 10, VInt 20])]\<rparr>)
   \<and> BuildQuery new_stmt
     (Some \<lparr>Conditions =
              [\<lparr>Field = ''age'', Operator = ''BETWEEN'', Value = VSlice [VInt 10, VInt 20]\<rparr>],
            Sorts = [\<lparr>SortField = ''name'', Direction = ''ASC''\<rparr>], Preloads = []\<rparr>)
     = Inr (new_stmt\<lparr>wheres := [(''age BETWEEN ? AND ?'', [VInt 10, VInt 20])],
                       orders := [''name ASC'']\<rparr>)"
  using BuildQuery_drops_and_between
    [where c = "\<lparr>Field = ''age'', Operator = ''~='', Value = VInt 3\<rparr>" and db = new_stmt
       and qb = "\<lparr>Conditions = [], Sorts = [], Preloads = []\<rparr>" and ?cs1.0 = "[]" and ?cs2.0 = "[]"
       and a = "VInt 10" and b = "VInt 20"]
    BuildQuery_drops_and_between
    [where c = "\<lparr>Field = ''age'', Operator = ''BETWEEN'', Value = VSlice [VInt 10]\<rparr>"
       and db = new_stmt and qb = "\<lparr>Conditions = [], Sorts = [], Preloads = []\<rparr>"
       and ?cs1.0 = "[]" and ?cs2.0 = "[]" and a = "VInt 10" and b = "VInt 20"]
    BuildQuery_drops_and_between
    [where c = "\<lparr>Field = ''age'', Operator = ''BETWEEN'', Value = VSlice [VInt 10, VInt 20]\<rparr>"
       and db = new_stmt
       and qb = "\<lparr>Conditions = [], Sorts = [\<lparr>SortField = ''name'', Direction = ''ASC''\<rparr>],
                  Preloads = []\<rparr>"
       and ?cs1.0 = "[]" and ?cs2.0 = "[]" and a = "VInt 10" and b = "VInt 20"]
  by (simp add: recognized_def is_pair_def BuildQuery_def build_sorts_def build_preloads_def
      Where_def Order_def new_stmt_def apply_condition_def)

section \<open>Concrete requests\<close>

lemmas Atoi_eval =
  Atoi_def atoi_fast_def ParseInt_def ParseUint_def strip_sign_def is_digit_def digit_val_def
  max_int_def min_int_def max_uint64_def uint_cutoff_def

lemma Atoi_1: "Atoi ''1'' = (1, None)"
  by (simp add: Atoi_eval)

lemma Atoi_2: "Atoi ''2'' = (2, None)"
  by (simp add: Atoi_eval)

lemma cache_key_user_1: "GenerateCacheKey ''*models.User'' 1 = ''*models.User:1''"
  by (simp add: GenerateCacheKey_def dec_int_def dec_nat.simps[of "Suc 0"] digit_char_def)

section \<open>Batch hard delete\<close>

text \<open>
  C1, at a request that lists a key without a row. The table holds users 1 and 3 and
  the body is \<open>{"ids": [1, 2, 3]}\<close>: the delete that the handler runs removes two rows
  (its \<open>RowsAffected\<close> is 2), the handler succeeds with status 200, and the \<open>affected\<close>
  field of its response is 3, the length of the submitted list.
\<close>

theorem batchHardDelete_reports_list_length:
  "batchHardDelete None None None
     \<lparr>DB = [\<lparr>ID = 1, DeletedAt = None, Name = ''Alice'', Age = 30\<rparr>,
             \<lparr>ID = 3, DeletedAt = None, Name = ''Carol'', Age = 41\<rparr>],
      RedisClient = None\<rparr> (Inr [1, 2, 3])
     = (\<lparr>DB = [], RedisClient = None\<rparr>, 200, HAffected 3)
   \<and> db_unscoped_delete_ids None
       [\<lparr>ID = 1, DeletedAt = None, Name = ''Alice'', Age = 30\<rparr>,
        \<lparr>ID = 3, DeletedAt = None, Name = ''Carol'', Age = 41\<rparr>] [1, 2, 3] = Inr ([], 2)"
  by (simp add: batchHardDelete_def WithTransaction_def db_unscoped_delete_ids_def)

section \<open>Cache invalidation by the write handlers\<close>

text \<open>
  With a cache backend that reports no error, the three handlers that update or delete
  a record remove the entry under the record's key before they answer with success.
  \<open>RestoreSoftDelete\<close> never touches the cache.
\<close>

lemma UpdateByID_deletes_cache_key:
  assumes "RedisClient t = Some r"
    and "UpdateByID first_fault save_fault new_key None tname t c body = (t', resp, None)"
  shows "\<exists>i. Atoi (param_id c) = (i, None)
           \<and> RedisClient t' = Some (r(GenerateCacheKey tname i := None))"
  using assms
  by (auto simp: UpdateByID_def DeleteFromCache_def split: prod.splits option.splits sum.splits
      if_splits)

lemma SoftDeleteByID_deletes_cache_key:
  assumes "RedisClient t = Some r"
    and "SoftDeleteByID delete_fault None now tname t c = (t', resp, None)"
  shows "\<exists>i. Atoi (param_id c) = (i, None)
           \<and> RedisClient t' = Some (r(GenerateCacheKey tname i := None))"
  using assms
  by (auto simp: SoftDeleteByID_def DeleteFromCache_def split: prod.splits option.splits sum.splits
      if_splits)

lemma HardDeleteByID_deletes_cache_key:
  assumes "RedisClient t = Some r"
    and "HardDeleteByID delete_fault None tname t c = (t', resp, None)"
  shows "\<exists>i. Atoi (param_id c) = (i, None)
           \<and> RedisClient t' = Some (r(GenerateCacheKey tname i := None))"
  using assms
  by (auto simp: HardDeleteByID_def DeleteFromCache_def split: prod.splits option.splits sum.splits
      if_splits)

lemma RestoreSoftDelete_leaves_cache:
  "RestoreSoftDelete update_fault tname t c = (t', resp, err) \<Longrightarrow> RedisClient t' = RedisClient t"
  by (auto simp: RestoreSoftDelete_def split: prod.splits option.splits sum.splits if_splits)

text \<open>
  C2, at a restore request. The cache holds an entry under the key of user 1. Restoring
  user 1 succeeds and the entry is still there afterwards; soft-deleting user 1 with
  the same cache removes it.
\<close>

theorem RestoreSoftDelete_keeps_cache_entry:
  "RestoreSoftDelete None ''*models.User''
     \<lparr>DB = [\<lparr>ID = 1, DeletedAt = Some 5, Name = ''Alice'', Age = 30\<rparr>],
      RedisClient = Some [''*models.User:1'' \<mapsto> (''{}'', 300)]\<rparr>
     \<lparr>param_id = ''1'', query = []\<rparr>
     = (\<lparr>DB = [\<lparr>ID = 1, DeletedAt = None, Name = ''Alice'', Age = 30\<rparr>],
         RedisClient = Some [''*models.User:1'' \<mapsto> (''{}'', 300)]\<rparr>,
        reply 200 MsgRestoreOK, None)
   \<and> SoftDeleteByID None None 9 ''*models.User''
     \<lparr>DB = [\<lparr>ID = 1, DeletedAt = None, Name = ''Alice'', Age = 30\<rparr>],
      RedisClient = Some [''*models.User:1'' \<mapsto> (''{}'', 300)]\<rparr>
     \<lparr>param_id = ''1'', query = []\<rparr>
     = (\<lparr>DB = [\<lparr>ID = 1, DeletedAt = Some 9, Name = ''Alice'', Age = 30\<rparr>],
         RedisClient = Some Map.empty\<rparr>,
        reply 200 MsgDeleteOK, None)"
  by (simp add: RestoreSoftDelete_def SoftDeleteByID_def Atoi_1 cache_key_user_1 db_restore_def
      db_delete_def has_id_def active_def DeleteFromCache_def)

section \<open>Cascade create inside the transaction\<close>

text \<open>
  C3. In a cascade create whose first step (the user) succeeded, if the second step
  (the profile) or the third (the tags) returns an error, whatever the steps did to the
  store, the store and the cache are afterwards what they were before the request, and
  the handler answers 500 with that error. This holds for every behaviour of the three
  ORM calls and whether or not a commit would have succeeded.
\<close>

theorem cascade_create_failure_rolls_back:
  assumes "create_user (DB t) (PUser req) = Inr (tx1, user)"
    and "create_profile tx1 ((PProfile req)\<lparr>UserID := ID user\<rparr>) = Inl e
         \<or> (\<exists>tx2 profile.
               create_profile tx1 ((PProfile req)\<lparr>UserID := ID user\<rparr>) = Inr (tx2, profile)
               \<and> append_tags tx2 user (PTags req) = Inl e)"
  shows "createUserWithEverything create_user create_profile append_tags None commit_fault t (Inr req)
           = (t, 500, HMsg e)"
  using assms by (auto simp: createUserWithEverything_def WithTransaction_def)

theorem cascade_create_failure_rolls_back_witness:
  "createUserWithEverything
     (\<lambda>db u. Inr (db @ [u\<lparr>ID := next_id db\<rparr>], u\<lparr>ID := next_id db\<rparr>))
     (\<lambda>db p. Inl (ErrStore ''UNIQUE constraint failed''))
     (\<lambda>db u ts. Inr db) None None
     \<lparr>DB = [\<lparr>ID = 1, DeletedAt = None, Name = ''Alice'', Age = 30\<rparr>], RedisClient = None\<rparr>
     (Inr \<lparr>PUser = \<lparr>ID = 0, DeletedAt = None, Name = ''Bob'', Age = 25\<rparr>,
           PProfile = \<lparr>ProfileID = 0, UserID = 0, Avatar = ''a.png'', Bio = ''x''\<rparr>,
           PTags = [\<lparr>TagID = 0, TagName = ''vip''\<rparr>]\<rparr>)
     = (\<lparr>DB = [\<lparr>ID = 1, DeletedAt = None, Name = ''Alice'', Age = 30\<rparr>], RedisClient = None\<rparr>,
        500, HMsg (ErrStore ''UNIQUE constraint failed''))
   \<and> createUserWithEverything
     (\<lambda>db u. Inr (db @ [u\<lparr>ID := next_id db\<rparr>], u\<lparr>ID := next_id db\<rparr>))
     (\<lambda>db p. Inr (db, p))
     (\<lambda>db u ts. Inl (ErrStore ''no such table: tags'')) None None
     \<lparr>DB = [\<lparr>ID = 1, DeletedAt = None, Name = ''Alice'', Age = 30\<rparr>], RedisClient = None\<rparr>
     (Inr \<lparr>PUser = \<lparr>ID = 0, DeletedAt = None, Name = ''Bob'', Age = 25\<rparr>,
           PProfile = \<lparr>ProfileID = 0, UserID = 0, Avatar = ''a.png'', Bio = ''x''\<rparr>,
           PTags = [\<lparr>TagID = 0, TagName = ''vip''\<rparr>]\<rparr>)
     = (\<lparr>DB = [\<lparr>ID = 1, DeletedAt = None, Name = ''Alice'', Age = 30\<rparr>], RedisClient = None\<rparr>,
        500, HMsg (ErrStore ''no such table: tags''))"
proof (rule conjI)
  show "createUserWithEverything
     (\<lambda>db u. Inr (db @ [u\<lparr>ID := next_id db\<rparr>], u\<lparr>ID := next_id db\<rparr>))
     (\<lambda>db p. Inl (ErrStore ''UNIQUE constraint failed''))
     (\<lambda>db u ts. Inr db) None None
     \<lparr>DB = [\<lparr>ID = 1, DeletedAt = None, Name = ''Alice'', Age = 30\<rparr>], RedisClient = None\<rparr>
     (Inr \<lparr>PUser = \<lparr>ID = 0, DeletedAt = None, Name = ''Bob'', Age = 25\<rparr>,
           PProfile = \<lparr>ProfileID = 0, UserID = 0, Avatar = ''a.png'', Bio = ''x''\<rparr>,
           PTags = [\<lparr>TagID = 0, TagName = ''vip''\<rparr>]\<rparr>)
     = (\<lparr>DB = [\<lparr>ID = 1, DeletedAt = None, Name = ''Alice'', Age = 30\<rparr>], RedisClient = None\<rparr>,
        500, HMsg (ErrStore ''UNIQUE constraint failed''))"
    by (rule cascade_create_failure_rolls_back
          [where ?tx1.0 = "[\<lparr>ID = 1, DeletedAt = None, Name = ''Alice'', Age = 30\<rparr>,
                           \<lparr>ID = 2, DeletedAt = None, Name = ''Bob'', Age = 25\<rparr>]"
             and user = "\<lparr>ID = 2, DeletedAt = None, Name = ''Bob'', Age = 25\<rparr>"])
       (simp_all add: next_id_def)
next
  show "createUserWithEverything
     (\<lambda>db u. Inr (db @ [u\<lparr>ID := next_id db\<rparr>], u\<lparr>ID := next_id db\<rparr>))
     (\<lambda>db p. Inr (db, p))
     (\<lambda>db u ts. Inl (ErrStore ''no such table: tags'')) None None
     \<lparr>DB = [\<lparr>ID = 1, DeletedAt = None, Name = ''Alice'', Age = 30\<rparr>], RedisClient = None\<rparr>
     (Inr \<lparr>PUser = \<lparr>ID = 0, DeletedAt = None, Name = ''Bob'', Age = 25\<rparr>,
           PProfile = \<lparr>ProfileID = 0, UserID = 0, Avatar = ''a.png'', Bio = ''x''\<rparr>,
           PTags = [\<lparr>TagID = 0, TagName = ''vip''\<rparr>]\<rparr>)
     = (\<lparr>DB = [\<lparr>ID = 1, DeletedAt = None, Name = ''Alice'', Age = 30\<rparr>], RedisClient = None\<rparr>,
        500, HMsg (ErrStore ''no such table: tags''))"
    by (rule cascade_create_failure_rolls_back
          [where ?tx1.0 = "[\<lparr>ID = 1, DeletedAt = None, Name = ''Alice'', Age = 30\<rparr>,
                           \<lparr>ID = 2, DeletedAt = None, Name = ''Bob'', Age = 25\<rparr>]"
             and user = "\<lparr>ID = 2, DeletedAt = None, Name = ''Bob'', Age = 25\<rparr>"])
       (simp_all add: next_id_def)
qed

section \<open>Restore and soft delete on records already in the target state\<close>

lemma restore_active_rows_noop:
  "list_all (\<lambda>u. if has_id i u then active u else True) tbl
     \<Longrightarrow> map (\<lambda>u. if has_id i u then u\<lparr>DeletedAt := None\<rparr> else u) tbl = tbl"
  by (induction tbl) (auto simp: active_def)

lemma matched_rows_counted:
  "list_ex (has_id i) tbl \<Longrightarrow> length (filter (has_id i) tbl) \<noteq> 0"
  by (induction tbl) auto

lemma delete_without_active_row:
  "\<not> list_ex (\<lambda>u. has_id i u \<and> active u) tbl
     \<Longrightarrow> map (\<lambda>u. if has_id i u \<and> active u then u\<lparr>DeletedAt := Some now\<rparr> else u) tbl = tbl
         \<and> filter (\<lambda>u. has_id i u \<and> active u) tbl = []"
  by (induction tbl) auto

text \<open>
  C8. For a request whose \<open>id\<close> parses, and a store that reports no error: restoring a
  record that exists and is active answers 200 with no error and leaves store and cache
  as they were; soft-deleting a record of which no active row exists (it is already
  soft-deleted, or absent) affects zero rows, leaves store and cache as they were, and
  answers 404 with \<open>ErrRecordNotFound\<close>.
\<close>

theorem restore_active_and_delete_deleted:
  assumes "Atoi (param_id c) = (i, None)"
  shows "(list_ex (has_id i) (DB t) \<and> list_all (\<lambda>u. if has_id i u then active u else True) (DB t)
            \<longrightarrow> RestoreSoftDelete None tname t c = (t, reply 200 MsgRestoreOK, None))
       \<and> (\<not> list_ex (\<lambda>u. has_id i u \<and> active u) (DB t)
            \<longrightarrow> SoftDeleteByID None redis_fault now tname t c
                  = (t, reply 404 MsgRecordNotFound, Some ErrRecordNotFound)
                \<and> db_delete None now (DB t) i = Inr (DB t, 0))"
  using assms restore_active_rows_noop[of i "DB t"] matched_rows_counted[of i "DB t"]
    delete_without_active_row[of i "DB t" now]
  by (auto simp: RestoreSoftDelete_def SoftDeleteByID_def db_restore_def db_delete_def)

theorem restore_active_and_delete_deleted_witness:
  "RestoreSoftDelete None ''*models.User''
     \<lparr>DB = [\<lparr>ID = 1, DeletedAt = None, Name = ''Alice'', Age = 30\<rparr>,
             \<lparr>ID = 2, DeletedAt = Some 5, Name = ''Bob'', Age = 25\<rparr>],
      RedisClient = None\<rparr> \<lparr>param_id = ''1'', query = []\<rparr>
     = (\<lparr>DB = [\<lparr>ID = 1, DeletedAt = None, Name = ''Alice'', Age = 30\<rparr>,
               \<lparr>ID = 2, DeletedAt = Some 5, Name = ''Bob'', Age = 25\<rparr>],
         RedisClient = None\<rparr>, reply 200 MsgRestoreOK, None)
   \<and> SoftDeleteByID None None 9 ''*models.User''
     \<lparr>DB = [\<lparr>ID = 1, DeletedAt = None, Name = ''Alice'', Age = 30\<rparr>,
             \<lparr>ID = 2, DeletedAt = Some 5, Name = ''Bob'', Age = 25\<rparr>],
      RedisClient = None\<rparr> \<lparr>param_id = ''2'', query = []\<rparr>
     = (\<lparr>DB = [\<lparr>ID = 1, DeletedAt = None, Name = ''Alice'', Age = 30\<rparr>,
               \<lparr>ID = 2, DeletedAt = Some 5, Name = ''Bob'', Age = 25\<rparr>],
         RedisClient = None\<rparr>, reply 404 MsgRecordNotFound, Some ErrRecordNotFound)"
  using restore_active_and_delete_deleted
      [where c = "\<lparr>param_id = ''1'', query = []\<rparr>" and i = 1 and tname = "''*models.User''"
         and t = "\<lparr>DB = [\<lparr>ID = 1, DeletedAt = None, Name = ''Alice'', Age = 30\<rparr>,
                         \<lparr>ID = 2, DeletedAt = Some 5, Name = ''Bob'', Age = 25\<rparr>],
                   RedisClient = None\<rparr>"]
    restore_active_and_delete_deleted
      [where c = "\<lparr>param_id = ''2'', query = []\<rparr>" and i = 2 and tname = "''*models.User''"
         and redis_fault = None and now = 9
         and t = "\<lparr>DB = [\<lparr>ID = 1, DeletedAt = None, Name = ''Alice'', Age = 30\<rparr>,
                         \<lparr>ID = 2, DeletedAt = Some 5, Name = ''Bob'', Age = 25\<rparr>],
                   RedisClient = None\<rparr>"]
  by (simp add: Atoi_1 Atoi_2 has_id_def active_def)

section \<open>Update by id\<close>

lemma db_first_found:
  "db_first None tbl i = Inr old \<Longrightarrow> old \<in> set tbl \<and> has_id i old \<and> active old"
  by (auto simp: db_first_def find_Some_iff split: option.splits)

lemma DeleteFromCache_DB: "DB (fst (DeleteFromCache f t key)) = DB t"
  by (auto simp: DeleteFromCache_def split: option.splits)

lemma db_save_overwrites:
  "ID m \<noteq> 0 \<Longrightarrow> ID m \<in> set (map ID tbl)
     \<Longrightarrow> db_save None new_key tbl m = Inr (map (\<lambda>u. if ID u = ID m then m else u) tbl, m)"
  by (simp add: db_save_def)

lemma find_replaced:
  "k \<in> set (map ID tbl) \<Longrightarrow> ID m = k
     \<Longrightarrow> find (\<lambda>u. ID u = k) (map (\<lambda>u. if ID u = k then m else u) tbl) = Some m"
  by (induction tbl) auto

lemma filter_replaced:
  "ID m = k \<Longrightarrow> filter (\<lambda>u. ID u \<noteq> k) (map (\<lambda>u. if ID u = k then m else u) tbl)
     = filter (\<lambda>u. ID u \<noteq> k) tbl"
  by (induction tbl) auto

lemma bind_user_key:
  "p_ID patch = None \<or> p_ID patch = Some (ID old) \<Longrightarrow> ID (bind_user patch old) = ID old"
  by (auto simp: bind_user_def)

text \<open>
  C10, as the claim states it, fails for a body that carries a primary key. The ORM's
  model struct binds the key from the body like any other field, so \<open>PUT /users/1\<close> with
  body \<open>{"ID": 2, "Name": "X"}\<close> loads user 1, overwrites key and name, and saves over
  the row of user 2: the age stored for user 2 goes from 25 to 30, although the body
  has no age.
\<close>

theorem UpdateByID_body_key_redirects_save:
  "UpdateByID None None 3 None ''*models.User''
     \<lparr>DB = [\<lparr>ID = 1, DeletedAt = None, Name = ''Alice'', Age = 30\<rparr>,
             \<lparr>ID = 2, DeletedAt = None, Name = ''Bob'', Age = 25\<rparr>],
      RedisClient = None\<rparr> \<lparr>param_id = ''1'', query = []\<rparr>
     (Inr \<lparr>p_ID = Some 2, p_DeletedAt = None, p_Name = Some ''X'', p_Age = None\<rparr>)
     = (\<lparr>DB = [\<lparr>ID = 1, DeletedAt = None, Name = ''Alice'', Age = 30\<rparr>,
               \<lparr>ID = 2, DeletedAt = None, Name = ''X'', Age = 30\<rparr>],
         RedisClient = None\<rparr>,
        (reply 200 MsgUpdateOK)\<lparr>Data := Some \<lparr>ID = 2, DeletedAt = None, Name = ''X'', Age = 30\<rparr>\<rparr>,
        None)"
  by (simp add: UpdateByID_def Atoi_1 db_first_def has_id_def active_def bind_user_def
      db_save_def DeleteFromCache_def)

text \<open>
  C10, amended. \<open>UpdateByID\<close> loads the record before it binds the body onto it. For
  an update request whose \<open>id\<close> parses and addresses an active record \<open>old\<close>, with a body
  that binds and carries no primary key (or the key of the addressed record), and a
  store that reports no error: the handler answers 200 with the saved record, which is
  \<open>old\<close> with exactly the fields present in the body replaced by the body's values, so
  every field absent from the body keeps the value stored before. The store afterwards
  is the store before with the addressed row replaced by the saved record: that row is
  what the store holds under the addressed key, and every other row is unchanged.
\<close>

theorem UpdateByID_without_key_keeps_absent_fields:
  assumes "Atoi (param_id c) = (i, None)"
    and "db_first None (DB t) i = Inr old"
    and "unique_positive_keys (DB t)"
    and "p_ID patch = None \<or> p_ID patch = Some (ID old)"
  shows "\<exists>t'.
           UpdateByID None None new_key redis_fault tname t c (Inr patch)
             = (t', (reply 200 MsgUpdateOK)\<lparr>Data := Some (bind_user patch old)\<rparr>, None)
         \<and> DB t' = map (\<lambda>u. if ID u = ID old then bind_user patch old else u) (DB t)
         \<and> find (has_id i) (DB t') = Some (bind_user patch old)
         \<and> filter (\<lambda>u. ID u \<noteq> ID old) (DB t') = filter (\<lambda>u. ID u \<noteq> ID old) (DB t)
         \<and> ID (bind_user patch old) = ID old
         \<and> Name (bind_user patch old) = (case p_Name patch of None \<Rightarrow> Name old | Some v \<Rightarrow> v)
         \<and> Age (bind_user patch old) = (case p_Age patch of None \<Rightarrow> Age old | Some v \<Rightarrow> v)
         \<and> DeletedAt (bind_user patch old)
             = (case p_DeletedAt patch of None \<Rightarrow> DeletedAt old | Some v \<Rightarrow> v)"
proof -
  let ?m = "bind_user patch old"
  let ?tbl = "map (\<lambda>u. if ID u = ID old then ?m else u) (DB t)"
  let ?t' = "fst (DeleteFromCache redis_fault (t\<lparr>DB := ?tbl\<rparr>) (GenerateCacheKey tname i))"
  have old: "old \<in> set (DB t)" "has_id i old" using db_first_found[OF assms(2)] by auto
  have pos: "0 < ID old"
    using old(1) assms(3) by (auto simp: unique_positive_keys_def list_all_iff)
  have key: "ID ?m = ID old" by (rule bind_user_key[OF assms(4)])
  have mem: "ID ?m \<in> set (map ID (DB t))" using old(1) key by auto
  have sv: "db_save None new_key (DB t) ?m = Inr (?tbl, ?m)"
    using db_save_overwrites[of ?m "DB t" new_key] pos key mem by simp
  have run: "UpdateByID None None new_key redis_fault tname t c (Inr patch)
               = (?t', (reply 200 MsgUpdateOK)\<lparr>Data := Some ?m\<rparr>, None)"
    using assms(1,2) sv by (simp add: UpdateByID_def)
  have dbt: "DB ?t' = ?tbl" by (simp add: DeleteFromCache_DB)
  have same: "(\<lambda>u. ID u = ID old) = has_id i" using old(2) by (auto simp: has_id_def)
  have "find (\<lambda>u. ID u = ID old) ?tbl = Some ?m"
    using find_replaced[of "ID old" "DB t" ?m] old(1) key by auto
  then have fnd: "find (has_id i) (DB ?t') = Some ?m" unfolding dbt same .
  have frm: "filter (\<lambda>u. ID u \<noteq> ID old) (DB ?t') = filter (\<lambda>u. ID u \<noteq> ID old) (DB t)"
    unfolding dbt by (rule filter_replaced[OF key])
  have n: "Name ?m = (case p_Name patch of None \<Rightarrow> Name old | Some v \<Rightarrow> v)"
    by (simp add: bind_user_def)
  have a: "Age ?m = (case p_Age patch of None \<Rightarrow> Age old | Some v \<Rightarrow> v)"
    by (simp add: bind_user_def)
  have d: "DeletedAt ?m = (case p_DeletedAt patch of None \<Rightarrow> DeletedAt old | Some v \<Rightarrow> v)"
    by (simp add: bind_user_def)
  show ?thesis
    by (intro exI[of _ ?t'] conjI run dbt fnd frm key n a d)
qed

theorem UpdateByID_without_key_keeps_absent_fields_witness:
  "UpdateByID None None 3 None ''*models.User''
     \<lparr>DB = [\<lparr>ID = 1, DeletedAt = None, Name = ''Alice'', Age = 30\<rparr>,
             \<lparr>ID = 2, DeletedAt = None, Name = ''Bob'', Age = 25\<rparr>],
      RedisClient = None\<rparr> \<lparr>param_id = ''1'', query = []\<rparr>
     (Inr \<lparr>p_ID = None, p_DeletedAt = None, p_Name = Some ''Alicia'', p_Age = None\<rparr>)
     = (\<lparr>DB = [\<lparr>ID = 1, DeletedAt = None, Name = ''Alicia'', Age = 30\<rparr>,
               \<lparr>ID = 2, DeletedAt = None, Name = ''Bob'', Age = 25\<rparr>],
         RedisClient = None\<rparr>,
        (reply 200 MsgUpdateOK)\<lparr>Data := Some \<lparr>ID = 1, DeletedAt = None, Name = ''Alicia'', Age = 30\<rparr>\<rparr>,
        None)"
proof -
  let ?t = "\<lparr>DB = [\<lparr>ID = 1, DeletedAt = None, Name = ''Alice'', Age = 30\<rparr>,
                   \<lparr>ID = 2, DeletedAt = None, Name = ''Bob'', Age = 25\<rparr>],
             RedisClient = None\<rparr>"
  let ?patch = "\<lparr>p_ID = None, p_DeletedAt = None, p_Name = Some ''Alicia'', p_Age = None\<rparr>"
  have h1: "Atoi (param_id \<lparr>param_id = ''1'', query = []\<rparr>) = (1, None)"
    by (simp add: Atoi_1)
  have h2: "db_first None (DB ?t) 1 = Inr \<lparr>ID = 1, DeletedAt = None, Name = ''Alice'', Age = 30\<rparr>"
    by (simp add: db_first_def has_id_def active_def)
  have h3: "unique_positive_keys (DB ?t)"
    by (simp add: unique_positive_keys_def)
  have h4: "p_ID ?patch = None
              \<or> p_ID ?patch = Some (ID \<lparr>ID = 1, DeletedAt = None, Name = ''Alice'', Age = 30\<rparr>)"
    by simp
  show ?thesis
    using UpdateByID_without_key_keeps_absent_fields
      [OF h1 h2 h3 h4, of 3 None "''*models.User''"]
    by (simp add: UpdateByID_def Atoi_1 db_first_def has_id_def active_def bind_user_def
        db_save_def DeleteFromCache_def)
qed

section \<open>The pager\<close>

lemma digit_val_le: "is_digit ch \<Longrightarrow> digit_val ch \<le> 9"
  by (auto simp: is_digit_def digit_val_def)

lemma atoi_digits_bound: "atoi_digits n s = Some m \<Longrightarrow> m < (n + 1) * 10 ^ length s"
proof (induction s arbitrary: n)
  case Nil
  then show ?case by simp
next
  case (Cons ch s)
  then have dg: "is_digit ch" and rec: "atoi_digits (n * 10 + digit_val ch) s = Some m"
    by (auto split: if_splits)
  have "m < (n * 10 + digit_val ch + 1) * 10 ^ length s"
    using Cons.IH[OF rec] .
  also have "\<dots> \<le> ((n + 1) * 10) * 10 ^ length s"
    using digit_val_le[OF dg] by (intro mult_right_mono) simp_all
  finally show ?case by (simp add: algebra_simps)
qed

lemma atoi_digits_None_iff: "atoi_digits n s = None \<longleftrightarrow> \<not> list_all is_digit s"
  by (induction s arbitrary: n) auto

lemma strip_sign_length: "strip_sign s = (neg, ds) \<Longrightarrow> length ds \<le> length s"
  by (auto simp: strip_sign_def split: list.splits if_splits)

lemma atoi_fast_range:
  assumes "length s < 19"
  shows "min_int \<le> fst (atoi_fast s) \<and> fst (atoi_fast s) \<le> max_int"
proof -
  obtain neg ds where sg: "strip_sign s = (neg, ds)" by (cases "strip_sign s")
  have len: "length ds \<le> 18" using strip_sign_length[OF sg] assms by simp
  show ?thesis
  proof (cases "atoi_digits 0 ds")
    case None
    then show ?thesis using sg by (simp add: atoi_fast_def min_int_def max_int_def)
  next
    case (Some m)
    have "m < 10 ^ length ds" using atoi_digits_bound[OF Some] by simp
    also have "(10::nat) ^ length ds \<le> 10 ^ 18" using len by (intro power_increasing) simp_all
    finally have "int m < 1000000000000000000" by simp
    then show ?thesis using sg Some by (auto simp: atoi_fast_def min_int_def max_int_def)
  qed
qed

lemma ParseInt_range: "min_int \<le> fst (ParseInt s) \<and> fst (ParseInt s) \<le> max_int"
  by (auto simp: ParseInt_def min_int_def max_int_def split: prod.splits)

lemma Atoi_range: "min_int \<le> fst (Atoi s) \<and> fst (Atoi s) \<le> max_int"
  using atoi_fast_range[of s] ParseInt_range[of s] by (simp add: Atoi_def)

lemma parse_uint_digits_syntax:
  "list_all is_digit pre \<Longrightarrow> (n + 1) * 10 ^ length pre \<le> max_uint64 + 1 \<Longrightarrow> \<not> is_digit ch
     \<Longrightarrow> parse_uint_digits n (pre @ ch # rest) = (0, Some SyntaxError)"
proof (induction pre arbitrary: n)
  case Nil
  then show ?case by simp
next
  case (Cons d pre)
  have dg: "is_digit d" and rest: "list_all is_digit pre" using Cons.prems(1) by auto
  have b: "(n + 1) * 10 * 10 ^ length pre \<le> max_uint64 + 1"
    using Cons.prems(2) by (simp add: algebra_simps)
  have step: "(n + 1) * 10 \<le> (n + 1) * 10 * 10 ^ length pre"
    by simp
  have n10: "(n + 1) * 10 \<le> max_uint64 + 1"
    by (rule order_trans[OF step b])
  have c1: "\<not> n \<ge> uint_cutoff"
    using n10 by (simp add: uint_cutoff_def max_uint64_def)
  have c2: "\<not> n * 10 + digit_val d > max_uint64"
    using n10 digit_val_le[OF dg] by simp
  have nxt: "(n * 10 + digit_val d + 1) * 10 ^ length pre \<le> (n + 1) * 10 * 10 ^ length pre"
    using digit_val_le[OF dg] by (intro mult_right_mono) simp_all
  have nx: "(n * 10 + digit_val d + 1) * 10 ^ length pre \<le> max_uint64 + 1"
    by (rule order_trans[OF nxt b])
  show ?case
    using dg c1 c2 Cons.IH[OF rest nx Cons.prems(3)] by simp
qed

lemma not_all_digits_split:
  "\<not> list_all is_digit ds \<Longrightarrow>
     \<exists>ch rest. ds = takeWhile is_digit ds @ ch # rest \<and> \<not> is_digit ch"
proof -
  assume "\<not> list_all is_digit ds"
  then have ne: "dropWhile is_digit ds \<noteq> []"
    by (simp add: list_all_iff)
  then obtain ch rest where dw: "dropWhile is_digit ds = ch # rest"
    by (cases "dropWhile is_digit ds") auto
  have "\<not> is_digit ch" using hd_dropWhile[OF ne] dw by simp
  moreover have "ds = takeWhile is_digit ds @ ch # rest"
    using takeWhile_dropWhile_id[of is_digit ds] dw by simp
  ultimately show ?thesis by blast
qed

lemma Atoi_not_numeric:
  assumes "\<not> numeric s" and "length (leading_digits s) \<le> 19"
  shows "Atoi s = (0, Some (ErrSyntax s))"
proof -
  obtain neg ds where sg: "strip_sign s = (neg, ds)" by (cases "strip_sign s")
  have bad: "ds = [] \<or> \<not> list_all is_digit ds" using assms(1) sg by (simp add: numeric_def)
  have fast: "atoi_fast s = (0, Some (ErrSyntax s))"
    using bad sg atoi_digits_None_iff[of 0 ds] by (auto simp: atoi_fast_def)
  have slow: "ParseInt s = (0, Some (ErrSyntax s))"
  proof (cases "s = [] \<or> ds = []")
    case True
    then show ?thesis using sg by (auto simp: ParseInt_def ParseUint_def)
  next
    case False
    then have nd: "\<not> list_all is_digit ds" using bad by simp
    obtain ch rest where sp: "ds = takeWhile is_digit ds @ ch # rest" and nch: "\<not> is_digit ch"
      using not_all_digits_split[OF nd] by blast
    have len: "length (takeWhile is_digit ds) \<le> 19"
      using assms(2) sg by (simp add: leading_digits_def)
    have "(10::nat) ^ length (takeWhile is_digit ds) \<le> 10 ^ 19"
      using len by (intro power_increasing) simp_all
    then have bd: "(0 + 1) * 10 ^ length (takeWhile is_digit ds) \<le> max_uint64 + 1"
      by (simp add: max_uint64_def)
    have all: "list_all is_digit (takeWhile is_digit ds)"
      by (simp add: list_all_iff) (meson set_takeWhileD)
    have "parse_uint_digits 0 (takeWhile is_digit ds @ ch # rest) = (0, Some SyntaxError)"
      by (rule parse_uint_digits_syntax[OF all bd nch])
    then have "parse_uint_digits 0 ds = (0, Some SyntaxError)" using sp by simp
    then show ?thesis using False sg by (simp add: ParseInt_def ParseUint_def)
  qed
  show ?thesis using fast slow by (simp add: Atoi_def)
qed

lemma go_int_id: "min_int \<le> x \<Longrightarrow> x \<le> max_int \<Longrightarrow> go_int x = x"
  by (simp add: go_int_def min_int_def max_int_def)

lemma paging_range:
  assumes "paging c = (page, pageSize)"
  shows "1 \<le> page" "page \<le> max_int" "1 \<le> pageSize" "pageSize \<le> max_int"
  using assms Atoi_range[of "DefaultQuery c ''page'' ''1''"]
    Atoi_range[of "DefaultQuery c ''pagesize'' ''10''"]
  by (auto simp: paging_def Let_def max_int_def split: if_splits)

lemma apply_offset_drop: "apply_offset (Some n) rows = drop (nat n) rows"
  by (simp add: apply_offset_def)

lemma apply_limit_take: "0 \<le> n \<Longrightarrow> apply_limit (Some n) rows = take (nat n) rows"
  by (simp add: apply_limit_def)

lemma paged_fields:
  "limit (paged db page pageSize) = Some pageSize"
  "offset (paged db page pageSize) = Some (go_mul (go_sub page 1) pageSize)"
  "wheres (paged db page pageSize) = wheres db"
  "orders (paged db page pageSize) = orders db"
  by (simp_all add: paged_def Limit_def Offset_def)

lemma matching_paged: "matching sat tbl (paged db page pageSize) = matching sat tbl db"
  by (simp add: matching_def paged_fields)

lemma GetByQueryBuilder_success:
  assumes "paging c = (page, pageSize)" and "BuildQuery new_stmt qb = Inr db"
  shows "GetByQueryBuilder sat order_by None None t c qb
      = Inr (\<lparr>Code = 200, Message = MsgQueryOK,
              Data = Some (take (nat pageSize)
                       (drop (nat (go_mul (go_sub page 1) pageSize))
                          (order_by (orders db) (matching sat (DB t) db)))),
              PageInfo = Some \<lparr>Page = page, PageSize = pageSize,
                               Total = int (length (matching sat (DB t) db))\<rparr>\<rparr>, None)"
proof -
  have "0 \<le> pageSize" using paging_range(3)[OF assms(1)] by simp
  then show ?thesis
    using assms
    by (simp add: GetByQueryBuilder_def db_count_def db_find_def paged_fields matching_paged
        apply_offset_drop apply_limit_take)
qed

lemma pager_wrapped_offset_response:
  "GetByQueryBuilder (\<lambda>w u. True) (\<lambda>os rows. rows) None None
       \<lparr>DB = [\<lparr>ID = 1, DeletedAt = None, Name = ''Alice'', Age = 30\<rparr>], RedisClient = None\<rparr>
       \<lparr>param_id = ''x'',
        query = [(''page'', ''4611686018427387905''), (''pagesize'', ''4'')]\<rparr> None
     = Inr (\<lparr>Code = 200, Message = MsgQueryOK,
             Data = Some [\<lparr>ID = 1, DeletedAt = None, Name = ''Alice'', Age = 30\<rparr>],
             PageInfo = Some \<lparr>Page = 4611686018427387905, PageSize = 4, Total = 1\<rparr>\<rparr>, None)"
proof -
  have p: "paging \<lparr>param_id = ''x'',
                   query = [(''page'', ''4611686018427387905''), (''pagesize'', ''4'')]\<rparr>
             = (4611686018427387905, 4)"
    by (simp add: paging_def DefaultQuery_def Atoi_eval)
  have h: "BuildQuery new_stmt None = Inr new_stmt"
    by (simp add: BuildQuery_def)
  have w: "go_mul (go_sub 4611686018427387905 1) 4 = 0"
    by (simp add: go_mul_def go_sub_def go_int_def)
  show ?thesis
    by (simp add: GetByQueryBuilder_success[OF p h] w matching_def active_def new_stmt_def)
qed

text \<open>
  C4, as the claim states it, fails in two places. A parameter that is not numeric is
  not always replaced by the default: \<open>page=99999999999999999999x\<close> starts with twenty
  digits, the parser reports the range error at the twentieth before it reaches the
  \<open>x\<close>, and the pager, which drops the error, uses page \<open>2 ^ 63 - 1\<close>. And the offset
  is not always the product: for \<open>page=4611686018427387905\<close> and \<open>pagesize=4\<close> both
  parameters parse without error and are used as they are, \<open>(page - 1) * pageSize\<close> is
  \<open>2 ^ 64\<close>, and the offset of the fetch is 0 (the request is answered with the first
  rows of the result).
\<close>

theorem pager_range_clamp_and_offset_wrap:
  "\<not> numeric ''99999999999999999999x''
   \<and> paging \<lparr>param_id = ''x'', query = [(''page'', ''99999999999999999999x'')]\<rparr>
     = (9223372036854775807, 10)
   \<and> paging \<lparr>param_id = ''x'',
           query = [(''page'', ''4611686018427387905''), (''pagesize'', ''4'')]\<rparr>
     = (4611686018427387905, 4)
   \<and> offset (paged new_stmt 4611686018427387905 4) = Some 0
   \<and> (4611686018427387905 - 1) * 4 = (18446744073709551616 :: int)"
proof -
  have n: "\<not> numeric ''99999999999999999999x''"
    by (simp add: numeric_def strip_sign_def is_digit_def)
  have q: "paging \<lparr>param_id = ''x'', query = [(''page'', ''99999999999999999999x'')]\<rparr>
             = (9223372036854775807, 10)"
    by (simp add: paging_def DefaultQuery_def Atoi_eval)
  have p: "paging \<lparr>param_id = ''x'',
                   query = [(''page'', ''4611686018427387905''), (''pagesize'', ''4'')]\<rparr>
             = (4611686018427387905, 4)"
    by (simp add: paging_def DefaultQuery_def Atoi_eval)
  have w: "go_mul (go_sub 4611686018427387905 1) 4 = 0"
    by (simp add: go_mul_def go_sub_def go_int_def)
  have o: "offset (paged new_stmt 4611686018427387905 4) = Some 0"
    by (simp add: paged_fields w)
  show ?thesis
    using n q p o by simp
qed

text \<open>
  C4, amended. For every paginated query request: the pager takes the value that
  \<open>strconv.Atoi\<close> returns for the \<open>page\<close> parameter and drops its error; when that value
  is less than 1 it uses page 1, and the same for the page size with 10. The value is 0,
  so the default is used, for every parameter that is not numeric and whose leading run
  of digits is at most 19 digits long. (A parameter that starts with digits which
  overflow 64 bits is parsed as a bound of \<open>int\<close>, numeric or not.) A parsed value of
  at least 1 is used as it is. The fetch runs with limit \<open>pageSize\<close> and with the offset
  \<open>(page - 1) * pageSize\<close> as Go's \<open>int\<close> computes it: the subtraction never wraps, and
  the product is the exact one whenever that fits an \<open>int\<close>. With a store that reports
  no error, the rows of the response are those of the built query from that offset on,
  at most \<open>pageSize\<close> of them.
\<close>

theorem pager_defaults_and_offset:
  assumes "paging c = (page, pageSize)"
  shows "(\<not> numeric (DefaultQuery c ''page'' ''1'')
              \<and> length (leading_digits (DefaultQuery c ''page'' ''1'')) \<le> 19
            \<or> fst (Atoi (DefaultQuery c ''page'' ''1'')) < 1 \<longrightarrow> page = 1)
       \<and> (\<not> numeric (DefaultQuery c ''pagesize'' ''10'')
              \<and> length (leading_digits (DefaultQuery c ''pagesize'' ''10'')) \<le> 19
            \<or> fst (Atoi (DefaultQuery c ''pagesize'' ''10'')) < 1 \<longrightarrow> pageSize = 10)
       \<and> (1 \<le> fst (Atoi (DefaultQuery c ''page'' ''1''))
            \<longrightarrow> page = fst (Atoi (DefaultQuery c ''page'' ''1'')))
       \<and> (1 \<le> fst (Atoi (DefaultQuery c ''pagesize'' ''10''))
            \<longrightarrow> pageSize = fst (Atoi (DefaultQuery c ''pagesize'' ''10'')))
       \<and> limit (paged db page pageSize) = Some pageSize
       \<and> offset (paged db page pageSize) = Some (go_mul (go_sub page 1) pageSize)
       \<and> go_sub page 1 = page - 1
       \<and> ((page - 1) * pageSize \<le> max_int
            \<longrightarrow> go_mul (go_sub page 1) pageSize = (page - 1) * pageSize)
       \<and> (BuildQuery new_stmt qb = Inr db \<longrightarrow>
            GetByQueryBuilder sat order_by None None t c qb
              = Inr (\<lparr>Code = 200, Message = MsgQueryOK,
                      Data = Some (take (nat pageSize)
                               (drop (nat (go_mul (go_sub page 1) pageSize))
                                  (order_by (orders db) (matching sat (DB t) db)))),
                      PageInfo = Some \<lparr>Page = page, PageSize = pageSize,
                                       Total = int (length (matching sat (DB t) db))\<rparr>\<rparr>, None))"
proof -
  note r = paging_range[OF assms]
  have p1: "\<not> numeric (DefaultQuery c ''page'' ''1'')
              \<and> length (leading_digits (DefaultQuery c ''page'' ''1'')) \<le> 19
            \<or> fst (Atoi (DefaultQuery c ''page'' ''1'')) < 1 \<longrightarrow> page = 1"
    using assms Atoi_not_numeric[of "DefaultQuery c ''page'' ''1''"]
    by (auto simp: paging_def Let_def)
  have p2: "\<not> numeric (DefaultQuery c ''pagesize'' ''10'')
              \<and> length (leading_digits (DefaultQuery c ''pagesize'' ''10'')) \<le> 19
            \<or> fst (Atoi (DefaultQuery c ''pagesize'' ''10'')) < 1 \<longrightarrow> pageSize = 10"
    using assms Atoi_not_numeric[of "DefaultQuery c ''pagesize'' ''10''"]
    by (auto simp: paging_def Let_def)
  have p3: "1 \<le> fst (Atoi (DefaultQuery c ''page'' ''1''))
            \<longrightarrow> page = fst (Atoi (DefaultQuery c ''page'' ''1''))"
    using assms by (auto simp: paging_def Let_def)
  have p4: "1 \<le> fst (Atoi (DefaultQuery c ''pagesize'' ''10''))
            \<longrightarrow> pageSize = fst (Atoi (DefaultQuery c ''pagesize'' ''10''))"
    using assms by (auto simp: paging_def Let_def)
  have s: "go_sub page 1 = page - 1"
    unfolding go_sub_def using r(1,2) by (intro go_int_id) (simp_all add: min_int_def)
  have nn: "0 \<le> (page - 1) * pageSize" using r(1,3) by simp
  have m: "(page - 1) * pageSize \<le> max_int
            \<longrightarrow> go_mul (go_sub page 1) pageSize = (page - 1) * pageSize"
    unfolding go_mul_def s using nn by (auto intro!: go_int_id simp: min_int_def)
  show ?thesis
    using p1 p2 p3 p4 s m paged_fields(1,2)[of db page pageSize]
      GetByQueryBuilder_success[OF assms, of qb db sat order_by t]
    by simp
qed

theorem pager_defaults_and_offset_witness:
  "paging \<lparr>param_id = ''x'', query = [(''page'', ''abc''), (''pagesize'', ''0'')]\<rparr> = (1, 10)
   \<and> offset (paged new_stmt 1 10) = Some 0
   \<and> paging \<lparr>param_id = ''x'', query = [(''page'', ''3''), (''pagesize'', ''5'')]\<rparr> = (3, 5)
   \<and> limit (paged new_stmt 3 5) = Some 5
   \<and> offset (paged new_stmt 3 5) = Some 10"
proof -
  have h1: "paging \<lparr>param_id = ''x'', query = [(''page'', ''abc''), (''pagesize'', ''0'')]\<rparr> = (1, 10)"
    by (simp add: paging_def DefaultQuery_def Atoi_eval)
  have h2: "paging \<lparr>param_id = ''x'', query = [(''page'', ''3''), (''pagesize'', ''5'')]\<rparr> = (3, 5)"
    by (simp add: paging_def DefaultQuery_def Atoi_eval)
  note w1 = pager_defaults_and_offset[OF h1, of new_stmt None "\<lambda>w u. True" "\<lambda>os rows. rows"
      "\<lparr>DB = [], RedisClient = None\<rparr>"]
  note w2 = pager_defaults_and_offset[OF h2, of new_stmt None "\<lambda>w u. True" "\<lambda>os rows. rows"
      "\<lparr>DB = [], RedisClient = None\<rparr>"]
  have e1: "go_mul (go_sub 1 1) 10 = 0" and e2: "go_mul (go_sub 3 1) 5 = 10"
    by (simp_all add: go_mul_def go_sub_def go_int_def)
  have "offset (paged new_stmt 1 10) = Some (go_mul (go_sub 1 1) 10)"
    using w1 by blast
  then have o1: "offset (paged new_stmt 1 10) = Some 0"
    by (simp only: e1)
  have l2: "limit (paged new_stmt 3 5) = Some 5"
    using w2 by blast
  have "offset (paged new_stmt 3 5) = Some (go_mul (go_sub 3 1) 5)"
    using w2 by blast
  then have o2: "offset (paged new_stmt 3 5) = Some 10"
    by (simp only: e2)
  show ?thesis
    by (intro conjI h1 h2 o1 l2 o2)
qed

text \<open>
  C5. For every request (the pager always works with a page and a page size of at
  least 1), a built query and a store that reports no error: the pager answers 200
  with at most \<open>pageSize\<close> rows, and the total it reports is the number of active rows
  that satisfy all predicates of the built query; a request for any other page of the
  same query reports the same total.
\<close>

theorem pager_rows_and_total:
  assumes "BuildQuery new_stmt qb = Inr db"
  shows "\<exists>rows pg rows' pg'.
           GetByQueryBuilder sat order_by None None t c qb
             = Inr (\<lparr>Code = 200, Message = MsgQueryOK, Data = Some rows, PageInfo = Some pg\<rparr>, None)
         \<and> 1 \<le> Page pg \<and> 1 \<le> PageSize pg
         \<and> int (length rows) \<le> PageSize pg
         \<and> Total pg = int (length (matching sat (DB t) db))
         \<and> GetByQueryBuilder sat order_by None None t c' qb
             = Inr (\<lparr>Code = 200, Message = MsgQueryOK, Data = Some rows', PageInfo = Some pg'\<rparr>, None)
         \<and> Total pg' = Total pg"
proof -
  obtain page pageSize where p: "paging c = (page, pageSize)" by (cases "paging c")
  obtain page' pageSize' where p': "paging c' = (page', pageSize')" by (cases "paging c'")
  note r = paging_range[OF p]
  have len: "int (length (take (nat pageSize) xs)) \<le> pageSize" for xs :: users
    using r(3) by simp
  show ?thesis
    unfolding GetByQueryBuilder_success[OF p assms] GetByQueryBuilder_success[OF p' assms]
    using r(1,3) len by simp
qed

theorem pager_rows_and_total_witness:
  "GetByQueryBuilder (\<lambda>w u. True) (\<lambda>os rows. rows) None None
     \<lparr>DB = [\<lparr>ID = 1, DeletedAt = None, Name = ''Alice'', Age = 30\<rparr>,
             \<lparr>ID = 2, DeletedAt = Some 5, Name = ''Bob'', Age = 25\<rparr>,
             \<lparr>ID = 3, DeletedAt = None, Name = ''Carol'', Age = 41\<rparr>],
      RedisClient = None\<rparr>
     \<lparr>param_id = ''x'', query = [(''page'', ''2''), (''pagesize'', ''1'')]\<rparr> None
     = Inr (\<lparr>Code = 200, Message = MsgQueryOK,
             Data = Some [\<lparr>ID = 3, DeletedAt = None, Name = ''Carol'', Age = 41\<rparr>],
             PageInfo = Some \<lparr>Page = 2, PageSize = 1, Total = 2\<rparr>\<rparr>, None)"
proof -
  have h: "BuildQuery new_stmt None = Inr new_stmt"
    by (simp add: BuildQuery_def)
  have p: "paging \<lparr>param_id = ''x'', query = [(''page'', ''2''), (''pagesize'', ''1'')]\<rparr> = (2, 1)"
    by (simp add: paging_def DefaultQuery_def Atoi_eval)
  show ?thesis
    using pager_rows_and_total
      [OF h, of "\<lambda>w u. True" "\<lambda>os rows. rows"
         "\<lparr>DB = [\<lparr>ID = 1, DeletedAt = None, Name = ''Alice'', Age = 30\<rparr>,
                 \<lparr>ID = 2, DeletedAt = Some 5, Name = ''Bob'', Age = 25\<rparr>,
                 \<lparr>ID = 3, DeletedAt = None, Name = ''Carol'', Age = 41\<rparr>],
           RedisClient = None\<rparr>"
         "\<lparr>param_id = ''x'', query = [(''page'', ''2''), (''pagesize'', ''1'')]\<rparr>"
         "\<lparr>param_id = ''x'', query = []\<rparr>"]
    by (simp add: GetByQueryBuilder_success[OF p h] matching_def active_def new_stmt_def
        go_mul_def go_sub_def go_int_def)
qed

end
